theory Spec2Isabelle
  imports Complex_Main
begin

section \<open>Dates\<close>

text \<open>
  The library works with JavaScript \<^verbatim>\<open>Date\<close> objects and luxon \<^verbatim>\<open>DateTime\<close>s read
  in UTC. A date is kept here by its UTC calendar fields; \<open>getTime\<close> computes the
  milliseconds since the epoch from them the way ECMAScript's \<^verbatim>\<open>MakeDay\<close> and
  \<^verbatim>\<open>MakeDate\<close> do. A record whose fields are not a calendar date plays the role of
  JavaScript's \<^verbatim>\<open>Invalid Date\<close> (time value NaN): every comparison with it is false.
  The host time zone is taken to be UTC, so that \<^verbatim>\<open>getMonth\<close>, \<^verbatim>\<open>getDate\<close>,
  \<^verbatim>\<open>setMonth\<close> and \<^verbatim>\<open>setDate\<close> act on the same fields. Months are numbered 1 to 12
  as luxon does.
\<close>

record date =
  year :: int
  month :: int
  day :: int
  millis :: int

definition isLeapYear :: "int \<Rightarrow> bool" where
  "isLeapYear y \<longleftrightarrow> y mod 4 = 0 \<and> (y mod 100 \<noteq> 0 \<or> y mod 400 = 0)"

definition daysInMonth :: "int \<Rightarrow> int \<Rightarrow> int" where
  "daysInMonth y m =
     (if m = 2 then (if isLeapYear y then 29 else 28)
      else if m = 4 \<or> m = 6 \<or> m = 9 \<or> m = 11 then 30 else 31)"

definition msPerDay :: int where
  "msPerDay = 86400000"

definition isValid :: "date \<Rightarrow> bool" where
  "isValid d \<longleftrightarrow>
     1 \<le> month d \<and> month d \<le> 12 \<and> 1 \<le> day d \<and> day d \<le> daysInMonth (year d) (month d)
     \<and> 0 \<le> millis d \<and> millis d < msPerDay"

text \<open>ECMAScript's \<^verbatim>\<open>DayFromYear\<close>: the day number of January 1st of year \<open>y\<close>.\<close>

definition dayFromYear :: "int \<Rightarrow> int" where
  "dayFromYear y =
     365 * (y - 1970) + (y - 1969) div 4 - (y - 1901) div 100 + (y - 1601) div 400"

text \<open>The day within the year on which month \<open>m\<close> starts (ECMAScript's month table).\<close>

definition daysBeforeMonth :: "int \<Rightarrow> int \<Rightarrow> int" where
  "daysBeforeMonth y m =
     (let l = (if isLeapYear y then 1 else 0) in
      if m = 1 then 0 else if m = 2 then 31 else if m = 3 then 59 + l
      else if m = 4 then 90 + l else if m = 5 then 120 + l else if m = 6 then 151 + l
      else if m = 7 then 181 + l else if m = 8 then 212 + l else if m = 9 then 243 + l
      else if m = 10 then 273 + l else if m = 11 then 304 + l else 334 + l)"

definition makeDay :: "int \<Rightarrow> int \<Rightarrow> int \<Rightarrow> int" where
  "makeDay y m d = dayFromYear y + daysBeforeMonth y m + (d - 1)"

definition getTime :: "date \<Rightarrow> int" where
  "getTime d = makeDay (year d) (month d) (day d) * msPerDay + millis d"

text \<open>
  \<^verbatim>\<open>a < b\<close>, \<^verbatim>\<open>a <= b\<close> and \<^verbatim>\<open>a > b\<close> on dates compare the time values; with an
  invalid date on either side the comparison is false.
\<close>

definition date_lt :: "date \<Rightarrow> date \<Rightarrow> bool" where
  "date_lt a b \<longleftrightarrow> isValid a \<and> isValid b \<and> getTime a < getTime b"

definition date_le :: "date \<Rightarrow> date \<Rightarrow> bool" where
  "date_le a b \<longleftrightarrow> isValid a \<and> isValid b \<and> getTime a \<le> getTime b"

text \<open>
  A day of the month past the end of the month: \<^verbatim>\<open>MakeDay\<close> counts on into the
  following month. One carry is enough for a day of at most 31.
\<close>

definition normalizeDay :: "int \<Rightarrow> int \<Rightarrow> int \<Rightarrow> int \<Rightarrow> date" where
  "normalizeDay y m d ms =
     (if d > daysInMonth y m
      then (if m = 12 then \<lparr>year = y + 1, month = 1, day = d - daysInMonth y m, millis = ms\<rparr>
            else \<lparr>year = y, month = m + 1, day = d - daysInMonth y m, millis = ms\<rparr>)
      else \<lparr>year = y, month = m, day = d, millis = ms\<rparr>)"

text \<open>\<^verbatim>\<open>d.setMonth(d.getMonth() + k)\<close>: the month index may run past December.\<close>

definition addMonths :: "date \<Rightarrow> int \<Rightarrow> date" where
  "addMonths d k =
     (let i = 12 * year d + (month d - 1) + k
      in normalizeDay (i div 12) (i mod 12 + 1) (day d) (millis d))"

text \<open>\<^verbatim>\<open>d.setDate(0)\<close>: day 0 of the month is the last day of the month before.\<close>

definition setDateZero :: "date \<Rightarrow> date" where
  "setDateZero d =
     (if month d = 1 then d\<lparr>year := year d - 1, month := 12, day := 31\<rparr>
      else d\<lparr>month := month d - 1, day := daysInMonth (year d) (month d - 1)\<rparr>)"

text \<open>luxon: \<^verbatim>\<open>endOf("year")\<close>, \<^verbatim>\<open>plus({ days: 1 })\<close> and \<^verbatim>\<open>diff(start, "days").days\<close>.\<close>

definition endOfYear :: "date \<Rightarrow> date" where
  "endOfYear d = \<lparr>year = year d, month = 12, day = 31, millis = msPerDay - 1\<rparr>"

definition plusOneDay :: "date \<Rightarrow> date" where
  "plusOneDay d = normalizeDay (year d) (month d) (day d + 1) (millis d)"

definition diffDays :: "date \<Rightarrow> date \<Rightarrow> real" where
  "diffDays e s = real_of_int (getTime e - getTime s) / real_of_int msPerDay"

subsection \<open>The time value is monotone in the calendar fields\<close>

lemma div_succ:
  fixes a k :: int
  assumes "0 < k"
  shows "(a + 1) div k = a div k + (if (a + 1) mod k = 0 then 1 else 0)"
proof -
  define q r where "q = a div k" and "r = a mod k"
  have a: "a = k * q + r" and r: "0 \<le> r" "r < k"
    using assms by (simp_all add: q_def r_def)
  show ?thesis
  proof (cases "r + 1 = k")
    case True
    have e: "a + 1 = k * (q + 1) + 0" using a True by (simp add: algebra_simps)
    have z: "(0::int) \<le> 0" "0 < k" using assms by simp_all
    have "(a + 1) div k = q + 1" by (rule int_div_pos_eq[OF e z])
    moreover have "(a + 1) mod k = 0" by (rule int_mod_pos_eq[OF e z])
    ultimately show ?thesis unfolding q_def[symmetric] by simp
  next
    case False
    have e: "a + 1 = k * q + (r + 1)" using a by simp
    have b: "0 \<le> r + 1" "r + 1 < k" using r False by linarith+
    have "(a + 1) div k = q" by (rule int_div_pos_eq[OF e b])
    moreover have "(a + 1) mod k = r + 1" by (rule int_mod_pos_eq[OF e b])
    ultimately show ?thesis unfolding q_def[symmetric] using r by simp
  qed
qed

lemma leap_count:
  fixes p q r :: bool
  assumes "r \<Longrightarrow> q" and "q \<Longrightarrow> p"
  shows "(if p then 1 else 0) - (if q then 1 else 0) + (if r then 1 else (0::int))
    = (if p \<and> (\<not> q \<or> r) then 1 else 0)"
proof (cases r)
  case True
  with assms show ?thesis by simp
next
  case False
  with assms show ?thesis by (cases q) simp_all
qed

lemma div_step:
  fixes y c k :: int
  assumes k: "0 < k" and c: "k dvd c - 1"
  shows "(y + 1 - c) div k = (y - c) div k + (if y mod k = 0 then 1 else 0)"
proof -
  have s1: "y + 1 - c = (y - c) + 1" and s2: "(y - c) + 1 = y - (c - 1)"
    by simp_all
  have m: "((y - c) + 1) mod k = 0 \<longleftrightarrow> y mod k = 0"
    unfolding s2 mod_eq_0_iff_dvd by (rule dvd_diff_left_iff[OF c])
  have "(y + 1 - c) div k = ((y - c) + 1) div k"
    by (simp only: s1)
  also have "\<dots> = (y - c) div k + (if ((y - c) + 1) mod k = 0 then 1 else 0)"
    by (rule div_succ[OF k])
  finally show ?thesis
    by (simp only: m)
qed

lemma dayFromYear_next:
  "dayFromYear (y + 1) = dayFromYear y + (if isLeapYear y then 366 else 365)"
proof -
  have a: "(y + 1 - 1969) div 4 = (y - 1969) div 4 + (if y mod 4 = 0 then 1 else 0)"
    by (rule div_step) simp_all
  have b: "(y + 1 - 1901) div 100 = (y - 1901) div 100 + (if y mod 100 = 0 then 1 else 0)"
    by (rule div_step) simp_all
  have c: "(y + 1 - 1601) div 400 = (y - 1601) div 400 + (if y mod 400 = 0 then 1 else 0)"
    by (rule div_step) simp_all
  have d1: "y mod 400 = 0 \<Longrightarrow> y mod 100 = 0"
    unfolding mod_eq_0_iff_dvd by (rule dvd_trans[of 100 400 y]) simp_all
  have d2: "y mod 100 = 0 \<Longrightarrow> y mod 4 = 0"
    unfolding mod_eq_0_iff_dvd by (rule dvd_trans[of 4 100 y]) simp_all
  have e: "(if y mod 4 = 0 then 1 else 0) - (if y mod 100 = 0 then 1 else 0)
      + (if y mod 400 = 0 then 1 else (0::int)) = (if isLeapYear y then 1 else 0)"
    unfolding isLeapYear_def by (rule leap_count[OF d1 d2])
  have f: "\<And>A B C i j k :: int. 365 * (y + 1 - 1970) + (A + i) - (B + j) + (C + k)
      = 365 * (y - 1970) + A - B + C + (365 + (i - j + k))"
    by (simp add: algebra_simps)
  have g: "\<And>(X::int) L. X + (365 + (if L then 1 else 0)) = X + (if L then 366 else 365)"
    by simp
  show ?thesis
    unfolding dayFromYear_def a b c f e by (rule g)
qed

text \<open>The day number on which the month with index \<open>i = 12 * year + (month - 1)\<close> starts.\<close>

definition monthStart :: "int \<Rightarrow> int" where
  "monthStart i = dayFromYear (i div 12) + daysBeforeMonth (i div 12) (i mod 12 + 1)"

lemma daysInMonth_bounds: "28 \<le> daysInMonth y m" "daysInMonth y m \<le> 31"
  by (simp_all add: daysInMonth_def)

lemma daysBeforeMonth_next:
  assumes "1 \<le> m" "m \<le> 11"
  shows "daysBeforeMonth y (m + 1) = daysBeforeMonth y m + daysInMonth y m"
proof -
  have "m = 1 \<or> m = 2 \<or> m = 3 \<or> m = 4 \<or> m = 5 \<or> m = 6 \<or> m = 7 \<or> m = 8 \<or> m = 9
      \<or> m = 10 \<or> m = 11"
    using assms by arith
  then show ?thesis
    by (elim disjE) (simp_all add: daysBeforeMonth_def daysInMonth_def)
qed

lemma monthStart_next: "monthStart (i + 1) = monthStart i + daysInMonth (i div 12) (i mod 12 + 1)"
proof -
  define q r where "q = i div 12" and "r = i mod 12"
  have i: "i = 12 * q + r" and r: "0 \<le> r" "r < 12"
    by (simp_all add: q_def r_def)
  show ?thesis
  proof (cases "r = 11")
    case True
    have e: "i + 1 = 12 * (q + 1) + 0" using i True by simp
    have z: "(0::int) \<le> 0" "(0::int) < 12" by simp_all
    have d: "(i + 1) div 12 = q + 1" by (rule int_div_pos_eq[OF e z])
    have m: "(i + 1) mod 12 = 0" by (rule int_mod_pos_eq[OF e z])
    show ?thesis
      unfolding monthStart_def d m q_def[symmetric] r_def[symmetric] True
      by (simp add: dayFromYear_next daysBeforeMonth_def daysInMonth_def)
  next
    case False
    have e: "i + 1 = 12 * q + (r + 1)" using i by simp
    have b: "0 \<le> r + 1" "r + 1 < 12" using r False by linarith+
    have d: "(i + 1) div 12 = q" by (rule int_div_pos_eq[OF e b])
    have m: "(i + 1) mod 12 = r + 1" by (rule int_mod_pos_eq[OF e b])
    have "daysBeforeMonth q (r + 1 + 1) = daysBeforeMonth q (r + 1) + daysInMonth q (r + 1)"
      by (rule daysBeforeMonth_next) (use r False in linarith)+
    then show ?thesis
      unfolding monthStart_def d m q_def[symmetric] r_def[symmetric]
      by simp
  qed
qed

lemma monthStart_mono: "i \<le> j \<Longrightarrow> monthStart i \<le> monthStart j"
proof (induction j rule: int_ge_induct)
  case base
  show ?case by simp
next
  case (step j)
  have "monthStart j \<le> monthStart (j + 1)"
    unfolding monthStart_next using daysInMonth_bounds(1)[of "j div 12" "j mod 12 + 1"]
    by linarith
  with step show ?case by linarith
qed


lemma monthIndex_div_mod:
  fixes y m :: int
  assumes "1 \<le> m" "m \<le> 12"
  shows "(12 * y + (m - 1)) div 12 = y" "(12 * y + (m - 1)) mod 12 + 1 = m"
proof -
  have e: "12 * y + (m - 1) = 12 * y + (m - 1)" by simp
  have b: "0 \<le> m - 1" "m - 1 < 12" using assms by linarith+
  show "(12 * y + (m - 1)) div 12 = y" by (rule int_div_pos_eq[OF e b])
  have "(12 * y + (m - 1)) mod 12 = m - 1" by (rule int_mod_pos_eq[OF e b])
  then show "(12 * y + (m - 1)) mod 12 + 1 = m" by simp
qed

lemma makeDay_monthStart:
  assumes "1 \<le> m" "m \<le> 12"
  shows "makeDay y m d = monthStart (12 * y + (m - 1)) + (d - 1)"
  unfolding makeDay_def monthStart_def monthIndex_div_mod[OF assms] by simp

lemma makeDay_mono:
  assumes a: "1 \<le> m" "m \<le> 12" "d \<le> daysInMonth y m"
    and b: "1 \<le> m'" "m' \<le> 12" "1 \<le> d'"
    and lt: "12 * y + m < 12 * y' + m'"
  shows "makeDay y m d < makeDay y' m' d'"
proof -
  let ?i = "12 * y + (m - 1)" and ?j = "12 * y' + (m' - 1)"
  have "makeDay y m d = monthStart ?i + (d - 1)"
    by (rule makeDay_monthStart[OF a(1,2)])
  also have "\<dots> < monthStart ?i + daysInMonth y m"
    using a(3) by linarith
  also have "\<dots> = monthStart (?i + 1)"
    unfolding monthStart_next monthIndex_div_mod[OF a(1,2)] by simp
  also have "\<dots> \<le> monthStart ?j"
    by (rule monthStart_mono) (use lt in linarith)
  also have "\<dots> \<le> monthStart ?j + (d' - 1)"
    using b(3) by linarith
  also have "\<dots> = makeDay y' m' d'"
    by (rule makeDay_monthStart[OF b(1,2), symmetric])
  finally show ?thesis .
qed

lemma getTime_mono:
  assumes "isValid a" "isValid b" "12 * year a + month a < 12 * year b + month b"
  shows "getTime a < getTime b"
proof -
  let ?A = "makeDay (year a) (month a) (day a)" and ?B = "makeDay (year b) (month b) (day b)"
  have "?A < ?B"
    by (rule makeDay_mono) (use assms in \<open>simp_all add: isValid_def\<close>)
  then have "?A + 1 \<le> ?B" by linarith
  then have "(?A + 1) * msPerDay \<le> ?B * msPerDay"
    by (rule mult_right_mono) (simp add: msPerDay_def)
  moreover have "millis a < msPerDay" "0 \<le> millis b"
    using assms by (simp_all add: isValid_def)
  ultimately show ?thesis
    unfolding getTime_def by (simp add: algebra_simps)
qed


section \<open>Coupon schedule\<close>

text \<open>
  \<^verbatim>\<open>CouponFrequency = 1 | 2 | 4 | 12\<close>. \<^verbatim>\<open>MajikBond.generateCouponSchedule\<close> starts at the
  issue date and, while the running date is before the maturity end, advances it by
  \<^verbatim>\<open>12 / frequency\<close> months (\<^verbatim>\<open>setMonth\<close>), falls back to the last day of the month
  when the day of the month changed (\<^verbatim>\<open>setDate(0)\<close>), and pushes the new date, or the
  end date when the new date is past it.
\<close>

datatype CouponFrequency = Annual | SemiAnnual | Quarterly | Monthly

fun freqValue :: "CouponFrequency \<Rightarrow> int" where
  "freqValue Annual = 1"
| "freqValue SemiAnnual = 2"
| "freqValue Quarterly = 4"
| "freqValue Monthly = 12"

definition monthsPerPeriod :: "CouponFrequency \<Rightarrow> int" where
  "monthsPerPeriod f = 12 div freqValue f"

definition nextCouponDate :: "date \<Rightarrow> int \<Rightarrow> date" where
  "nextCouponDate current k =
     (let next = addMonths current k
      in if day next \<noteq> day current then setDateZero next else next)"

lemma monthsPerPeriod_pos: "1 \<le> monthsPerPeriod f"
  by (cases f) (simp_all add: monthsPerPeriod_def)

lemma clamp_month:
  assumes m: "1 \<le> m" "m \<le> 12" and d: "1 \<le> d" "d \<le> 31"
  shows "(let n = normalizeDay y m d ms in if day n \<noteq> d then setDateZero n else n)
    = \<lparr>year = y, month = m, day = min d (daysInMonth y m), millis = ms\<rparr>"
proof (cases "d > daysInMonth y m")
  case True
  have p: "0 < daysInMonth y m" using daysInMonth_bounds(1)[of y m] by linarith
  show ?thesis
  proof (cases "m = 12")
    case m12: True
    with True p show ?thesis
      by (simp add: normalizeDay_def setDateZero_def Let_def daysInMonth_def)
  next
    case False
    with True p m show ?thesis
      by (simp add: normalizeDay_def setDateZero_def Let_def)
  qed
next
  case False
  then show ?thesis
    by (simp add: normalizeDay_def Let_def)
qed

lemma nextCouponDate_eq:
  assumes "isValid c"
  shows "nextCouponDate c k =
    (let i = 12 * year c + (month c - 1) + k
     in \<lparr>year = i div 12, month = i mod 12 + 1,
         day = min (day c) (daysInMonth (i div 12) (i mod 12 + 1)), millis = millis c\<rparr>)"
proof -
  let ?i = "12 * year c + (month c - 1) + k"
  have m: "1 \<le> ?i mod 12 + 1" "?i mod 12 + 1 \<le> 12"
    using pos_mod_sign[of 12 ?i] pos_mod_bound[of 12 ?i] by linarith+
  have d: "1 \<le> day c" "day c \<le> 31"
    using assms daysInMonth_bounds(2)[of "year c" "month c"] by (simp_all add: isValid_def)
  have n: "day (addMonths c k) \<noteq> day c \<longleftrightarrow>
      day (normalizeDay (?i div 12) (?i mod 12 + 1) (day c) (millis c)) \<noteq> day c"
    by (simp add: addMonths_def Let_def)
  show ?thesis
    unfolding nextCouponDate_def using clamp_month[OF m d, of "?i div 12" "millis c"]
    by (simp add: addMonths_def Let_def)
qed

lemma nextCouponDate_valid:
  assumes "isValid c"
  shows "isValid (nextCouponDate c k)"
proof -
  let ?i = "12 * year c + (month c - 1) + k"
  have m: "1 \<le> ?i mod 12 + 1" "?i mod 12 + 1 \<le> 12"
    using pos_mod_sign[of 12 ?i] pos_mod_bound[of 12 ?i] by linarith+
  have d: "1 \<le> day c" "0 \<le> millis c" "millis c < msPerDay"
    using assms by (simp_all add: isValid_def)
  have p: "1 \<le> daysInMonth (?i div 12) (?i mod 12 + 1)"
    using daysInMonth_bounds(1)[of "?i div 12" "?i mod 12 + 1"] by linarith
  show ?thesis
    unfolding nextCouponDate_eq[OF assms] Let_def isValid_def using m d p by simp
qed

lemma nextCouponDate_index:
  assumes "isValid c"
  shows "12 * year (nextCouponDate c k) + month (nextCouponDate c k)
    = 12 * year c + month c + k"
proof -
  let ?i = "12 * year c + (month c - 1) + k"
  have "12 * (?i div 12) + ?i mod 12 = ?i" by (rule mult_div_mod_eq)
  then show ?thesis
    unfolding nextCouponDate_eq[OF assms] Let_def by simp
qed

lemma nextCouponDate_later:
  assumes "isValid c" "1 \<le> k"
  shows "getTime c < getTime (nextCouponDate c k)"
  by (rule getTime_mono[OF assms(1) nextCouponDate_valid[OF assms(1)]])
     (use assms(2) in \<open>simp add: nextCouponDate_index[OF assms(1)]\<close>)

function scheduleLoop :: "CouponFrequency \<Rightarrow> date \<Rightarrow> date \<Rightarrow> date list" where
  "scheduleLoop f e current =
     (if date_lt current e
      then (let next = nextCouponDate current (monthsPerPeriod f)
            in (if date_lt e next then e else next) # scheduleLoop f e next)
      else [])"
  by pat_completeness auto
termination
  by (relation "measure (\<lambda>(f, e, c). nat (getTime e - getTime c))")
     (simp_all add: date_lt_def nextCouponDate_later monthsPerPeriod_pos)

declare scheduleLoop.simps [simp del]


section \<open>Day count\<close>

text \<open>
  \<^verbatim>\<open>DayCountCalculator\<close> (utils.ts, the luxon version). Every value of the enum
  \<^verbatim>\<open>DayCountConvention\<close> has a case in \<^verbatim>\<open>yearFraction\<close>; the \<^verbatim>\<open>default\<close> branch, which
  throws, is reached by no value of the type. JavaScript numbers are modelled as reals: the
  year fraction here is the exact quotient, and the code returns a double next to it.
\<close>

datatype DayCountConvention =
  THIRTY_U_360 | THIRTY_360 | THIRTY_E_360 | ACTUAL_ACTUAL | ACTUAL_360 | ACTUAL_365

definition actual :: "date \<Rightarrow> date \<Rightarrow> real" where
  "actual s e = \<bar>diffDays e s\<bar>"

lemma plusOneDay_endOfYear:
  "plusOneDay (endOfYear c) = \<lparr>year = year c + 1, month = 1, day = 1, millis = msPerDay - 1\<rparr>"
  by (simp add: plusOneDay_def endOfYear_def normalizeDay_def daysInMonth_def)

lemma nextBreak_later:
  assumes "isValid c"
  shows "getTime c < getTime (plusOneDay (endOfYear c))"
proof (rule getTime_mono[OF assms])
  show "isValid (plusOneDay (endOfYear c))"
    unfolding plusOneDay_endOfYear by (simp add: isValid_def daysInMonth_def msPerDay_def)
  show "12 * year c + month c
      < 12 * year (plusOneDay (endOfYear c)) + month (plusOneDay (endOfYear c))"
    unfolding plusOneDay_endOfYear using assms by (simp add: isValid_def)
qed

function actualActualLoop :: "date \<Rightarrow> date \<Rightarrow> real \<Rightarrow> real" where
  "actualActualLoop e current acc =
     (if date_lt current e
      then (let yearEnd = endOfYear current;
                nextBreak = (if date_lt yearEnd e then plusOneDay yearEnd else e);
                daysInYear = (if isLeapYear (year current) then 366 else 365)
            in actualActualLoop e nextBreak (acc + \<bar>diffDays nextBreak current\<bar> / daysInYear))
      else acc)"
  by pat_completeness auto
termination
  by (relation "measure (\<lambda>(e, c, s). nat (getTime e - getTime c))")
     (simp_all add: date_lt_def nextBreak_later)

declare actualActualLoop.simps [simp del]

definition actualActual :: "date \<Rightarrow> date \<Rightarrow> real" where
  "actualActual s e = actualActualLoop e s 0"

definition thirtyUS360 :: "date \<Rightarrow> date \<Rightarrow> real" where
  "thirtyUS360 s e =
     (let d1 = (if day s = 31 then 30 else day s);
          d2 = (if day e = 31 \<and> d1 \<ge> 30 then 30 else day e);
          days360 = (year e - year s) * 360 + (month e - month s) * 30 + (d2 - d1)
      in real_of_int days360 / 360)"

definition thirtyE360 :: "date \<Rightarrow> date \<Rightarrow> real" where
  "thirtyE360 s e =
     (let d1 = (if day s = 31 then 30 else day s);
          d2 = (if day e = 31 then 30 else day e);
          days360 = (year e - year s) * 360 + (month e - month s) * 30 + (d2 - d1)
      in real_of_int days360 / 360)"

definition yearFraction :: "date \<Rightarrow> date \<Rightarrow> DayCountConvention \<Rightarrow> real" where
  "yearFraction s e convention =
     (if \<not> isValid s \<or> \<not> isValid e \<or> date_le e s then 0
      else (case convention of
              ACTUAL_ACTUAL \<Rightarrow> actualActual s e
            | ACTUAL_360 \<Rightarrow> actual s e / 360
            | ACTUAL_365 \<Rightarrow> actual s e / 365
            | THIRTY_360 \<Rightarrow> thirtyUS360 s e
            | THIRTY_U_360 \<Rightarrow> thirtyUS360 s e
            | THIRTY_E_360 \<Rightarrow> thirtyE360 s e))"


lemma getTime_day_lt:
  assumes "isValid a" "isValid b"
    and "makeDay (year a) (month a) (day a) < makeDay (year b) (month b) (day b)"
  shows "getTime a < getTime b"
proof -
  let ?A = "makeDay (year a) (month a) (day a)" and ?B = "makeDay (year b) (month b) (day b)"
  have "?A + 1 \<le> ?B" using assms(3) by linarith
  then have "(?A + 1) * msPerDay \<le> ?B * msPerDay"
    by (rule mult_right_mono) (simp add: msPerDay_def)
  moreover have "millis a < msPerDay" "0 \<le> millis b"
    using assms by (simp_all add: isValid_def)
  ultimately show ?thesis
    unfolding getTime_def by (simp add: algebra_simps)
qed

lemma getTime_lt_fields:
  assumes a: "isValid a" and b: "isValid b" and lt: "getTime a < getTime b"
  shows "12 * year a + month a < 12 * year b + month b
    \<or> (year a = year b \<and> month a = month b \<and> day a \<le> day b)"
proof (rule ccontr)
  assume n: "\<not> ?thesis"
  have ma: "1 \<le> month a" "month a \<le> 12" and mb: "1 \<le> month b" "month b \<le> 12"
    using a b by (simp_all add: isValid_def)
  show False
  proof (cases "12 * year b + month b < 12 * year a + month a")
    case True
    from getTime_mono[OF b a True] lt show False by linarith
  next
    case False
    with n have e: "12 * year a + month a = 12 * year b + month b" by linarith
    have y: "year a = year b" using e ma mb by linarith
    with e have m: "month a = month b" by linarith
    from n y m have "day b < day a" by linarith
    then have "makeDay (year b) (month b) (day b) < makeDay (year a) (month a) (day a)"
      by (simp add: makeDay_def y m)
    from getTime_day_lt[OF b a this] lt show False by linarith
  qed
qed

lemma actualActualLoop_nonneg: "0 \<le> acc \<Longrightarrow> 0 \<le> actualActualLoop e c acc"
proof (induction e c acc rule: actualActualLoop.induct)
  case (1 e current acc)
  show ?case
  proof (cases "date_lt current e")
    case True
    let ?nb = "if date_lt (endOfYear current) e then plusOneDay (endOfYear current) else e"
    let ?diy = "if isLeapYear (year current) then 366 else 365 :: real"
    have "0 \<le> acc + \<bar>diffDays ?nb current\<bar> / ?diy"
      using "1.prems" by simp
    from "1.IH"[OF True refl refl refl this] True show ?thesis
      by (subst actualActualLoop.simps) (simp add: Let_def)
  next
    case False
    with "1.prems" show ?thesis by (subst actualActualLoop.simps) simp
  qed
qed

lemma thirtyUS360_nonneg:
  assumes "isValid s" "isValid e" "getTime s < getTime e"
  shows "0 \<le> thirtyUS360 s e"
proof -
  have d: "1 \<le> day s" "day s \<le> 31" "1 \<le> day e" "day e \<le> 31"
    using assms(1,2) daysInMonth_bounds(2)[of "year s" "month s"]
      daysInMonth_bounds(2)[of "year e" "month e"]
    by (simp_all add: isValid_def)
  let ?d1 = "if day s = 31 then 30 else day s"
  let ?d2 = "if day e = 31 \<and> ?d1 \<ge> 30 then 30 else day e"
  have "0 \<le> (year e - year s) * 360 + (month e - month s) * 30 + (?d2 - ?d1)"
    using getTime_lt_fields[OF assms] d by (auto split: if_splits)
  then show ?thesis
    unfolding thirtyUS360_def Let_def by simp
qed

lemma thirtyE360_nonneg:
  assumes "isValid s" "isValid e" "getTime s < getTime e"
  shows "0 \<le> thirtyE360 s e"
proof -
  have d: "1 \<le> day s" "day s \<le> 31" "1 \<le> day e" "day e \<le> 31"
    using assms(1,2) daysInMonth_bounds(2)[of "year s" "month s"]
      daysInMonth_bounds(2)[of "year e" "month e"]
    by (simp_all add: isValid_def)
  let ?d1 = "if day s = 31 then 30 else day s"
  let ?d2 = "if day e = 31 then 30 else day e"
  have "0 \<le> (year e - year s) * 360 + (month e - month s) * 30 + (?d2 - ?d1)"
    using getTime_lt_fields[OF assms] d by (auto split: if_splits)
  then show ?thesis
    unfolding thirtyE360_def Let_def by simp
qed

lemma yearFraction_nonneg: "0 \<le> yearFraction s e convention"
proof (cases "\<not> isValid s \<or> \<not> isValid e \<or> date_le e s")
  case True
  then show ?thesis by (simp add: yearFraction_def)
next
  case False
  then have v: "isValid s" "isValid e" and lt: "getTime s < getTime e"
    by (auto simp: date_le_def)
  show ?thesis
  proof (cases convention)
    case ACTUAL_ACTUAL
    with False actualActualLoop_nonneg[of 0 e s] show ?thesis
      by (simp add: yearFraction_def actualActual_def)
  next
    case ACTUAL_360
    with False show ?thesis by (simp add: yearFraction_def actual_def)
  next
    case ACTUAL_365
    with False show ?thesis by (simp add: yearFraction_def actual_def)
  next
    case THIRTY_360
    with False thirtyUS360_nonneg[OF v lt] show ?thesis by (simp add: yearFraction_def)
  next
    case THIRTY_U_360
    with False thirtyUS360_nonneg[OF v lt] show ?thesis by (simp add: yearFraction_def)
  next
    case THIRTY_E_360
    with False thirtyE360_nonneg[OF v lt] show ?thesis by (simp add: yearFraction_def)
  qed
qed

lemma yearFraction_zero: "date_le e s \<Longrightarrow> yearFraction s e convention = 0"
  by (simp add: yearFraction_def)

section \<open>Numbers and money\<close>

text \<open>
  \<^verbatim>\<open>Decimal.toDecimalPlaces(0, ROUND_HALF_EVEN)\<close> rounds to a whole number, ties to the
  even neighbour (majik-bond.ts also makes \<^verbatim>\<open>ROUND_HALF_EVEN\<close> the default rounding of
  \<^verbatim>\<open>Decimal\<close>, which \<^verbatim>\<open>toDecimalPlaces(0)\<close> without a mode uses). \<^verbatim>\<open>Math.round\<close> rounds
  half up.
\<close>

definition roundHalfEven :: "real \<Rightarrow> int" where
  "roundHalfEven x =
     (let f = \<lfloor>x\<rfloor>; r = x - of_int f
      in if r < 1 / 2 then f else if r > 1 / 2 then f + 1 else if even f then f else f + 1)"

definition mathRound :: "real \<Rightarrow> int" where
  "mathRound x = \<lfloor>x + 1 / 2\<rfloor>"

text \<open>
  Modelled from the spec: the money type \<^verbatim>\<open>MajikMoney\<close> of the package
  \<^verbatim>\<open>@thezelijah/majik-money\<close> is not part of the repository. The spec describes it as
  an arbitrary-precision money abstraction with minor-unit backing,
  multiply/divide/add/subtract and explicit rounding. It is modelled as an exact amount in
  major units with its currency; arithmetic on it is exact, and rounding happens only where
  the bond code asks for it. \<^verbatim>\<open>ratio\<close> has no value for a zero divisor.
\<close>

record currency =
  code :: string
  decimals :: nat

record money =
  amount :: real
  currency :: currency

definition fromMinor :: "real \<Rightarrow> currency \<Rightarrow> money" where
  "fromMinor n c = \<lparr>amount = n / 10 ^ decimals c, currency = c\<rparr>"

definition fromMajor :: "real \<Rightarrow> currency \<Rightarrow> money" where
  "fromMajor x c = \<lparr>amount = x, currency = c\<rparr>"

definition toMajorDecimal :: "money \<Rightarrow> real" where
  "toMajorDecimal m = amount m"

definition toMinor :: "money \<Rightarrow> real" where
  "toMinor m = amount m * 10 ^ decimals (currency m)"

definition multiply :: "money \<Rightarrow> real \<Rightarrow> money" where
  "multiply m x = m\<lparr>amount := amount m * x\<rparr>"

definition add :: "money \<Rightarrow> money \<Rightarrow> money" where
  "add a b = a\<lparr>amount := amount a + amount b\<rparr>"

definition subtract :: "money \<Rightarrow> money \<Rightarrow> money" where
  "subtract a b = a\<lparr>amount := amount a - amount b\<rparr>"

definition ratio :: "money \<Rightarrow> money \<Rightarrow> real option" where
  "ratio a b = (if amount b = 0 then None else Some (amount a / amount b))"

section \<open>The bond\<close>

text \<open>
  The fields of \<^verbatim>\<open>MajikBond\<close>. The maturity's \<^verbatim>\<open>start\<close> and \<^verbatim>\<open>end\<close> are ISO date strings
  that every use parses with \<^verbatim>\<open>new Date\<close>; they are kept as dates. The private
  \<^verbatim>\<open>taxEngine\<close> only holds references to the bond and to its \<^verbatim>\<open>tax\<close> object, and no
  setter assigns \<^verbatim>\<open>ytm_curve\<close>; neither is a field here.
\<close>

datatype PriceMode = Clean | Dirty

record BondMaturity =
  start_date :: date
  end_date :: date
  years :: real
  issueDate :: "date option"

record PriceQuote =
  buy :: real
  sell :: "real option"

record BondTaxSettings =
  enabled :: bool
  interestFWT :: real
  capitalGains :: real
  estateOrDonor :: real

record CashflowSummary =
  period :: nat
  dateLabel :: "int \<times> int \<times> int"
  interest :: money
  principal_row :: money
  total_row :: money
  tax_row :: money

record MajikBond =
  faceValue :: money
  couponRate :: real
  maturity :: BondMaturity
  price :: PriceQuote
  frequency :: CouponFrequency
  marketRate :: real
  dayCount :: DayCountConvention
  cashflowSummary :: "CashflowSummary list"
  tax :: BondTaxSettings
  priceMode :: PriceMode

definition generateCouponSchedule :: "MajikBond \<Rightarrow> date list" where
  "generateCouponSchedule b =
     scheduleLoop (frequency b) (end_date (maturity b)) (start_date (maturity b))"

definition totalPeriods :: "MajikBond \<Rightarrow> int" where
  "totalPeriods b =
     mathRound (yearFraction (start_date (maturity b)) (end_date (maturity b)) (dayCount b)
                * real_of_int (freqValue (frequency b)))"

definition getCurrentYield :: "MajikBond \<Rightarrow> real option" where
  "getCurrentYield b =
     (let annualCoupon = multiply (faceValue b) (couponRate b);
          marketPrice = multiply (faceValue b) (buy (price b))
      in ratio annualCoupon marketPrice)"

section \<open>Accrued interest\<close>

text \<open>
  \<^verbatim>\<open>DayCountCalculator.yearFraction\<close> returns a JavaScript number, a double, and
  \<^verbatim>\<open>Decimal\<close> reads a double in its shortest decimal form: the accrual and the cashflow
  table multiply by 0.3333333333333333 where the exact year fraction is one third. The
  difference is in the sixteenth digit, but at a rounding tie it decides the result. The
  two functions are therefore given with the number they receive as the argument \<open>yf\<close>;
  \<open>exactFraction\<close> is the exact year fraction under the bond's convention, and
  \<open>accruedInterest\<close> and \<open>generate\<close> are the functions at that value.
\<close>

definition exactFraction :: "MajikBond \<Rightarrow> date \<Rightarrow> date \<Rightarrow> real" where
  "exactFraction b s e = yearFraction s e (dayCount b)"

text \<open>\<^verbatim>\<open>BondAccrual.accruedInterest\<close>; \<open>findLastCoupon\<close> is its \<^verbatim>\<open>for ... of\<close> loop.\<close>

fun findLastCoupon :: "date \<Rightarrow> date \<Rightarrow> date list \<Rightarrow> date" where
  "findLastCoupon valuationDate lastCoupon [] = lastCoupon"
| "findLastCoupon valuationDate lastCoupon (couponDate # rest) =
     (if date_lt valuationDate couponDate then lastCoupon
      else findLastCoupon valuationDate couponDate rest)"

definition accruedInterestWith :: "(date \<Rightarrow> date \<Rightarrow> real) \<Rightarrow> MajikBond \<Rightarrow> date \<Rightarrow> money" where
  "accruedInterestWith yf b valuationDate =
     (let schedule = generateCouponSchedule b;
          zero = fromMinor 0 (currency (faceValue b))
      in if schedule = [] then zero
         else if date_le valuationDate (hd schedule) then zero
         else
           (let lastCoupon = findLastCoupon valuationDate (start_date (maturity b)) schedule;
                fraction = yf lastCoupon valuationDate
            in if fraction \<le> 0 then zero
               else
                 (let gross = toMajorDecimal (faceValue b) * couponRate b * fraction;
                      accruedMajor =
                        (if enabled (tax b) \<and> interestFWT (tax b) \<noteq> 0
                         then gross - gross * interestFWT (tax b) else gross)
                  in fromMajor (of_int (roundHalfEven accruedMajor)) (currency (faceValue b)))))"

definition accruedInterest :: "MajikBond \<Rightarrow> date \<Rightarrow> money" where
  "accruedInterest b valuationDate = accruedInterestWith (exactFraction b) b valuationDate"

section \<open>Cashflow table\<close>

text \<open>
  \<^verbatim>\<open>BondCashflow.generate\<close> builds the schedule with a loop of its own that is the loop
  of \<^verbatim>\<open>generateCouponSchedule\<close> statement for statement, then one row per date;
  \<open>cashflowRowWith\<close> is the body of its \<^verbatim>\<open>forEach\<close>.
\<close>

definition cashflowRowWith ::
  "(date \<Rightarrow> date \<Rightarrow> real) \<Rightarrow> MajikBond \<Rightarrow> nat \<Rightarrow> date \<Rightarrow> date \<Rightarrow> bool \<Rightarrow> CashflowSummary" where
  "cashflowRowWith yf b idx prevDate couponDate isLast =
     (let faceMaj = toMajorDecimal (faceValue b);
          periodFraction = yf prevDate couponDate;
          gross = faceMaj * couponRate b * periodFraction;
          withheld = enabled (tax b) \<and> interestFWT (tax b) \<noteq> 0;
          taxMaj = (if withheld then gross * interestFWT (tax b) else 0);
          interestMaj = (if withheld then gross - taxMaj else gross);
          principalMaj = (if isLast then faceMaj else 0);
          cur = currency (faceValue b)
      in \<lparr>period = idx + 1,
          dateLabel = (year couponDate, month couponDate, day couponDate),
          interest = fromMajor (of_int (roundHalfEven interestMaj)) cur,
          principal_row = fromMajor (of_int (roundHalfEven principalMaj)) cur,
          total_row = fromMajor (of_int (roundHalfEven (interestMaj + principalMaj))) cur,
          tax_row = fromMajor (of_int (roundHalfEven taxMaj)) cur\<rparr>)"

fun cashflowRowsWith ::
  "(date \<Rightarrow> date \<Rightarrow> real) \<Rightarrow> MajikBond \<Rightarrow> nat \<Rightarrow> date \<Rightarrow> date list \<Rightarrow> CashflowSummary list" where
  "cashflowRowsWith yf b idx prevDate [] = []"
| "cashflowRowsWith yf b idx prevDate (couponDate # rest) =
     cashflowRowWith yf b idx prevDate couponDate (rest = [])
       # cashflowRowsWith yf b (idx + 1) couponDate rest"

definition generateWith :: "(date \<Rightarrow> date \<Rightarrow> real) \<Rightarrow> MajikBond \<Rightarrow> CashflowSummary list" where
  "generateWith yf b =
     cashflowRowsWith yf b 0 (start_date (maturity b))
       (scheduleLoop (frequency b) (end_date (maturity b)) (start_date (maturity b)))"

definition generate :: "MajikBond \<Rightarrow> CashflowSummary list" where
  "generate b = generateWith (exactFraction b) b"


section \<open>Pricing\<close>

text \<open>
  \<^verbatim>\<open>Decimal\<close> values are exact reals here (the library keeps 40 significant digits), with
  \<open>None\<close> for a value that is not finite (\<^verbatim>\<open>NaN\<close>, \<^verbatim>\<open>Infinity\<close>): division by zero and
  a negative base raised to a fractional power give one, and arithmetic on one gives one
  again. In the code below a non-finite value is never a divisor of a finite one except as
  \<^verbatim>\<open>NaN\<close>, so the three can share one representation. Numbers passed in (rates, prices,
  years, the tolerance) are finite.
\<close>

type_synonym decimal = "real option"

definition dec_add :: "decimal \<Rightarrow> decimal \<Rightarrow> decimal" where
  "dec_add a b = (case (a, b) of (Some x, Some y) \<Rightarrow> Some (x + y) | _ \<Rightarrow> None)"

definition dec_sub :: "decimal \<Rightarrow> decimal \<Rightarrow> decimal" where
  "dec_sub a b = (case (a, b) of (Some x, Some y) \<Rightarrow> Some (x - y) | _ \<Rightarrow> None)"

definition dec_mul :: "decimal \<Rightarrow> decimal \<Rightarrow> decimal" where
  "dec_mul a b = (case (a, b) of (Some x, Some y) \<Rightarrow> Some (x * y) | _ \<Rightarrow> None)"

definition dec_div :: "decimal \<Rightarrow> decimal \<Rightarrow> decimal" where
  "dec_div a b =
     (case (a, b) of (Some x, Some y) \<Rightarrow> if y = 0 then None else Some (x / y) | _ \<Rightarrow> None)"

definition isInteger :: "real \<Rightarrow> bool" where
  "isInteger t \<longleftrightarrow> t = of_int \<lfloor>t\<rfloor>"

definition dec_pow :: "decimal \<Rightarrow> real \<Rightarrow> decimal" where
  "dec_pow a t =
     (case a of
        None \<Rightarrow> None
      | Some x \<Rightarrow>
          if isInteger t then
            (if 0 \<le> t then Some (x ^ nat \<lfloor>t\<rfloor>)
             else if x = 0 then None else Some (1 / x ^ nat \<lfloor>- t\<rfloor>))
          else if 0 < x then Some (x powr t)
          else if x = 0 \<and> 0 < t then Some 0
          else None)"

definition dec_abs_lt :: "decimal \<Rightarrow> real \<Rightarrow> bool" where
  "dec_abs_lt a c = (case a of None \<Rightarrow> False | Some x \<Rightarrow> \<bar>x\<bar> < c)"

definition freq :: "MajikBond \<Rightarrow> real" where
  "freq b = real_of_int (freqValue (frequency b))"

definition discountCoupon ::
  "MajikBond \<Rightarrow> date \<Rightarrow> real \<Rightarrow> real \<Rightarrow> decimal \<Rightarrow> date \<Rightarrow> decimal" where
  "discountCoupon b valuationDate couponMaj baseRate priceMaj couponDate =
     (let t = yearFraction valuationDate couponDate (dayCount b) * freq b
      in if t \<le> 0 then priceMaj
         else dec_add priceMaj (dec_div (Some couponMaj) (dec_pow (Some baseRate) t)))"

definition computePrice :: "MajikBond \<Rightarrow> real \<Rightarrow> date \<Rightarrow> PriceMode \<Rightarrow> decimal" where
  "computePrice b rate valuationDate mode =
     (let schedule = generateCouponSchedule b;
          faceMaj = toMajorDecimal (faceValue b);
          couponMaj = faceMaj * couponRate b / freq b;
          baseRate = 1 + rate / freq b;
          coupons = foldl (discountCoupon b valuationDate couponMaj baseRate) (Some 0) schedule;
          totalPeriods =
            (if schedule = [] then 0
             else yearFraction valuationDate (last schedule) (dayCount b)) * freq b;
          priceMaj = dec_add coupons (dec_div (Some faceMaj) (dec_pow (Some baseRate) totalPeriods))
      in case mode of
           Dirty \<Rightarrow>
             dec_div (dec_add priceMaj (Some (toMajorDecimal (accruedInterest b valuationDate))))
               (Some faceMaj)
         | Clean \<Rightarrow> dec_div priceMaj (Some faceMaj))"

text \<open>
  \<^verbatim>\<open>BondPricing.solveYTMFromPrice\<close>: \<open>couponTerms\<close> is the inner loop over
  \<^verbatim>\<open>t = 1, 2, ... <= periods\<close>, \<open>newtonTerms\<close> the body of the outer loop up to the values
  \<^verbatim>\<open>f\<close> and \<^verbatim>\<open>df\<close>, and \<open>newtonLoop\<close> the outer \<^verbatim>\<open>for\<close> loop, counting the iterations
  that remain.
\<close>

function couponTerms ::
  "real \<Rightarrow> real \<Rightarrow> real \<Rightarrow> real \<Rightarrow> nat \<Rightarrow> decimal \<times> decimal \<Rightarrow> decimal \<times> decimal" where
  "couponTerms freqDec couponMaj ytmDec periods t (f, df) =
     (if real t \<le> periods
      then (let discountBase = Some (1 + ytmDec / freqDec);
                discount = dec_pow discountBase (real t);
                f' = dec_add f (dec_div (Some couponMaj) discount);
                df' = dec_sub df
                  (dec_div (Some (real t * couponMaj))
                     (dec_mul (dec_mul discount discountBase) (Some freqDec)))
            in couponTerms freqDec couponMaj ytmDec periods (t + 1) (f', df'))
      else (f, df))"
  by pat_completeness auto
termination
  by (relation "measure (\<lambda>(fr, c, y, p, t, a). nat \<lfloor>p\<rfloor> + 1 - t)") (simp_all, linarith)

declare couponTerms.simps [simp del]

definition newtonTerms ::
  "real \<Rightarrow> real \<Rightarrow> real \<Rightarrow> real \<Rightarrow> real \<Rightarrow> real \<Rightarrow> decimal \<times> decimal" where
  "newtonTerms freqDec faceMaj couponMaj priceDec periods ytmDec =
     (let (f0, df0) = couponTerms freqDec couponMaj ytmDec periods 1 (Some 0, Some 0);
          discountBaseFinal = Some (1 + ytmDec / freqDec);
          discountFinal = dec_pow discountBaseFinal periods;
          f = dec_add f0 (dec_sub (dec_div (Some faceMaj) discountFinal) (Some (faceMaj * priceDec)));
          df = dec_sub df0
            (dec_div (Some (periods * faceMaj))
               (dec_mul (dec_mul discountFinal discountBaseFinal) (Some freqDec)))
      in (f, df))"

fun newtonLoop ::
  "real \<Rightarrow> real \<Rightarrow> real \<Rightarrow> real \<Rightarrow> real \<Rightarrow> real \<Rightarrow> nat \<Rightarrow> real \<Rightarrow> real" where
  "newtonLoop freqDec faceMaj couponMaj priceDec periods tolerance 0 ytmDec = ytmDec"
| "newtonLoop freqDec faceMaj couponMaj priceDec periods tolerance (Suc n) ytmDec =
     (let (f, df) = newtonTerms freqDec faceMaj couponMaj priceDec periods ytmDec
      in if dec_abs_lt df (1 / 10 ^ 30) then ytmDec
         else (case dec_sub (Some ytmDec) (dec_div f df) of
                 None \<Rightarrow> ytmDec
               | Some next \<Rightarrow>
                   if \<bar>next - ytmDec\<bar> < tolerance then next
                   else newtonLoop freqDec faceMaj couponMaj priceDec periods tolerance n next))"

definition initialGuess :: "MajikBond \<Rightarrow> real" where
  "initialGuess b = (if marketRate b \<noteq> 0 then marketRate b else couponRate b)"

definition solveYTMFromPrice :: "MajikBond \<Rightarrow> real \<Rightarrow> real \<Rightarrow> nat \<Rightarrow> real \<Rightarrow> real" where
  "solveYTMFromPrice b priceRatio maturityYears iterations tolerance =
     (if maturityYears \<le> 0 then 0
      else
        (let freqDec = freq b;
             faceMaj = toMajorDecimal (faceValue b);
             couponMaj = faceMaj * couponRate b / freqDec;
             ytmDec = initialGuess b;
             periods = maturityYears * freqDec
         in newtonLoop freqDec faceMaj couponMaj priceRatio periods tolerance iterations ytmDec))"


section \<open>Sale\<close>

text \<open>
  \<^verbatim>\<open>BondSale\<close>. A price ratio can be a non-finite number; money made from one has no
  amount (\<open>None\<close>). The comparison \<^verbatim>\<open>gainRatio <= 0\<close> is false for \<^verbatim>\<open>NaN\<close> and for
  \<^verbatim>\<open>Infinity\<close>; a ratio of \<^verbatim>\<open>-Infinity\<close>, which would make it true, needs a negative face
  value or coupon and is not told apart.
\<close>

definition getSellPriceRatio :: "MajikBond \<Rightarrow> date \<Rightarrow> decimal" where
  "getSellPriceRatio b asOfDate =
     (case sell (price b) of
        Some s \<Rightarrow> Some s
      | None \<Rightarrow> computePrice b (marketRate b) asOfDate Dirty)"


definition computeCapitalGainsTax :: "MajikBond \<Rightarrow> date \<Rightarrow> money option" where
  "computeCapitalGainsTax b asOfDate =
     (if \<not> enabled (tax b) \<or> capitalGains (tax b) = 0
      then Some (fromMinor 0 (currency (faceValue b)))
      else
        (case getSellPriceRatio b asOfDate of
           None \<Rightarrow> None
         | Some sellRatio \<Rightarrow>
             (let gainRatio = sellRatio - buy (price b)
              in if gainRatio \<le> 0 then Some (fromMinor 0 (currency (faceValue b)))
                 else Some (multiply (multiply (faceValue b) gainRatio) (capitalGains (tax b))))))"


record BondSaleSummary =
  asOfDate :: date
  cleanPrice :: "money option"
  dirtyPrice :: "money option"
  accruedInterest_sale :: money
  capitalGainsTax :: "money option"
  netGain :: "money option"
  sellPriceUsed :: decimal


text \<open>\<^verbatim>\<open>BondTax.computeCapitalGains\<close>\<close>

definition computeCapitalGains :: "BondTaxSettings \<Rightarrow> money \<Rightarrow> money \<Rightarrow> money" where
  "computeCapitalGains settings sellPrice costBasis =
     (if \<not> enabled settings \<or> capitalGains settings = 0
      then fromMinor 0 (currency sellPrice)
      else
        (let gain = subtract sellPrice costBasis
         in if toMinor gain \<le> 0 then fromMinor 0 (currency sellPrice)
            else multiply gain (capitalGains settings)))"

section \<open>Setters\<close>

text \<open>
  A setter returns the error it threw, if any, and the bond as the call left it. After a
  successful assignment \<^verbatim>\<open>setMarketRate\<close> and \<^verbatim>\<open>setMaturityDate\<close> also call
  \<^verbatim>\<open>BondPricing.computeYTMCurve\<close> and discard the result; the call changes no field.
  The branches of \<^verbatim>\<open>setIssueDate\<close> and \<^verbatim>\<open>setMaturityDate\<close> for a missing (empty) date string
  do not arise for a date.
\<close>

datatype error = Error string

definition recomputeDerivedData :: "MajikBond \<Rightarrow> MajikBond" where
  "recomputeDerivedData b = b\<lparr>cashflowSummary := generate b\<rparr>"

definition recomputeMaturityYears :: "MajikBond \<Rightarrow> error option \<times> MajikBond" where
  "recomputeMaturityYears b =
     (let s = start_date (maturity b); e = end_date (maturity b)
      in if date_le e s then (Some (Error ''Maturity date must be after issue date''), b)
         else (None, b\<lparr>maturity := (maturity b)\<lparr>years := yearFraction s e (dayCount b)\<rparr>\<rparr>))"

definition setFaceValue :: "real \<Rightarrow> currency \<Rightarrow> MajikBond \<Rightarrow> error option \<times> MajikBond" where
  "setFaceValue v c b =
     (if v \<le> 0 then (Some (Error ''Face value must be positive''), b)
      else (None, recomputeDerivedData (b\<lparr>faceValue := fromMajor v c\<rparr>)))"

definition setCouponRate :: "real \<Rightarrow> MajikBond \<Rightarrow> error option \<times> MajikBond" where
  "setCouponRate rate b =
     (if rate < 0 then (Some (Error ''Coupon rate cannot be negative''), b)
      else (None, recomputeDerivedData (b\<lparr>couponRate := rate\<rparr>)))"

definition setBuyPrice :: "real \<Rightarrow> MajikBond \<Rightarrow> error option \<times> MajikBond" where
  "setBuyPrice p b =
     (if p \<le> 0 then (Some (Error ''Buy price must be positive''), b)
      else (None, recomputeDerivedData (b\<lparr>price := (price b)\<lparr>buy := p\<rparr>\<rparr>)))"

definition setSellPrice :: "real \<Rightarrow> MajikBond \<Rightarrow> error option \<times> MajikBond" where
  "setSellPrice p b =
     (if p \<le> 0 then (Some (Error ''Sell price must be positive''), b)
      else (None, recomputeDerivedData (b\<lparr>price := (price b)\<lparr>sell := Some p\<rparr>\<rparr>)))"

definition setMarketRate :: "real \<Rightarrow> MajikBond \<Rightarrow> error option \<times> MajikBond" where
  "setMarketRate rate b =
     (if rate < 0 then (Some (Error ''Market rate cannot be negative''), b)
      else (None, recomputeDerivedData (b\<lparr>marketRate := rate\<rparr>)))"

definition setInterestFWT :: "real \<Rightarrow> MajikBond \<Rightarrow> error option \<times> MajikBond" where
  "setInterestFWT rate b =
     (if rate < 0 \<or> rate > 1 then (Some (Error ''Interest FWT must be between 0 and 1''), b)
      else (None, recomputeDerivedData (b\<lparr>tax := (tax b)\<lparr>interestFWT := rate\<rparr>\<rparr>)))"

definition setCapitalGains :: "real \<Rightarrow> MajikBond \<Rightarrow> error option \<times> MajikBond" where
  "setCapitalGains rate b =
     (if rate < 0 \<or> rate > 1
      then (Some (Error ''Capital gains tax must be between 0 and 1''), b)
      else (None, recomputeDerivedData (b\<lparr>tax := (tax b)\<lparr>capitalGains := rate\<rparr>\<rparr>)))"

definition setEstateOrDonor :: "real \<Rightarrow> MajikBond \<Rightarrow> error option \<times> MajikBond" where
  "setEstateOrDonor rate b =
     (if rate < 0 \<or> rate > 1
      then (Some (Error ''Estate/Donor tax must be between 0 and 1''), b)
      else (None, recomputeDerivedData (b\<lparr>tax := (tax b)\<lparr>estateOrDonor := rate\<rparr>\<rparr>)))"

definition setIssueDate :: "date \<Rightarrow> MajikBond \<Rightarrow> error option \<times> MajikBond" where
  "setIssueDate d b =
     (let b1 = b\<lparr>maturity := (maturity b)\<lparr>start_date := d, issueDate := Some d\<rparr>\<rparr>
      in case recomputeMaturityYears b1 of
           (Some e, b2) \<Rightarrow> (Some e, b2)
         | (None, b2) \<Rightarrow> (None, recomputeDerivedData b2))"

definition setMaturityDate :: "date \<Rightarrow> MajikBond \<Rightarrow> error option \<times> MajikBond" where
  "setMaturityDate d b =
     (let b1 = b\<lparr>maturity := (maturity b)\<lparr>end_date := d\<rparr>\<rparr>
      in case recomputeMaturityYears b1 of
           (Some e, b2) \<Rightarrow> (Some e, b2)
         | (None, b2) \<Rightarrow> (None, recomputeDerivedData b2))"

section \<open>Example bonds\<close>

definition utcDate :: "int \<Rightarrow> int \<Rightarrow> int \<Rightarrow> date" where
  "utcDate y m d = \<lparr>year = y, month = m, day = d, millis = 0\<rparr>"

definition PHP :: currency where
  "PHP = \<lparr>code = ''PHP'', decimals = 2\<rparr>"

definition noTax :: BondTaxSettings where
  "noTax = \<lparr>enabled = False, interestFWT = 1 / 5, capitalGains = 3 / 20, estateOrDonor = 0\<rparr>"

text \<open>
  The spec's scenario A: face value 100000, a 6 percent coupon paid twice a year for five
  years, ACTUAL/365, no tax, bought at par.
\<close>

definition scenarioA :: MajikBond where
  "scenarioA =
     \<lparr>faceValue = fromMajor 100000 PHP, couponRate = 3 / 50,
      maturity = \<lparr>start_date = utcDate 2024 1 15, end_date = utcDate 2029 1 15, years = 5,
                  issueDate = None\<rparr>,
      price = \<lparr>buy = 1, sell = None\<rparr>, frequency = SemiAnnual, marketRate = 3 / 50,
      dayCount = ACTUAL_365, cashflowSummary = [], tax = noTax, priceMode = Clean\<rparr>"

definition taxedBond :: "real option \<Rightarrow> MajikBond" where
  "taxedBond s = scenarioA\<lparr>price := \<lparr>buy = 1, sell = s\<rparr>, tax := noTax\<lparr>enabled := True\<rparr>\<rparr>"

lemmas date_eval =
  utcDate_def date_lt_def date_le_def isValid_def getTime_def makeDay_def dayFromYear_def
  daysBeforeMonth_def daysInMonth_def isLeapYear_def msPerDay_def

lemmas schedule_eval =
  generateCouponSchedule_def nextCouponDate_def addMonths_def normalizeDay_def setDateZero_def
  monthsPerPeriod_def Let_def

text \<open>
  A one-year bond under 30/360 with two coupons, on the 30th of July and of January.
\<close>

definition thirtyBond :: MajikBond where
  "thirtyBond =
     scenarioA\<lparr>maturity := \<lparr>start_date = utcDate 2024 1 30, end_date = utcDate 2025 1 30,
                              years = 1, issueDate = None\<rparr>,
               dayCount := THIRTY_360\<rparr>"

lemma thirtyBond_fields:
  "start_date (maturity thirtyBond) = utcDate 2024 1 30"
  "end_date (maturity thirtyBond) = utcDate 2025 1 30"
  "frequency thirtyBond = SemiAnnual" "dayCount thirtyBond = THIRTY_360"
  "faceValue thirtyBond = fromMajor 100000 PHP" "couponRate thirtyBond = 3 / 50"
  "tax thirtyBond = noTax"
  by (simp_all add: thirtyBond_def scenarioA_def)

lemma thirtyBond_schedule:
  "generateCouponSchedule thirtyBond = [utcDate 2024 7 30, utcDate 2025 1 30]"
proof -
  have n: "nextCouponDate (utcDate 2024 1 30) 6 = utcDate 2024 7 30"
    "nextCouponDate (utcDate 2024 7 30) 6 = utcDate 2025 1 30"
    by (simp_all add: schedule_eval utcDate_def daysInMonth_def)
  have c: "date_lt (utcDate 2024 1 30) (utcDate 2025 1 30)"
    "date_lt (utcDate 2024 7 30) (utcDate 2025 1 30)"
    "\<not> date_lt (utcDate 2025 1 30) (utcDate 2024 7 30)"
    "\<not> date_lt (utcDate 2025 1 30) (utcDate 2025 1 30)"
    by (simp_all add: date_eval)
  have "scheduleLoop SemiAnnual (utcDate 2025 1 30) (utcDate 2024 1 30)
      = [utcDate 2024 7 30, utcDate 2025 1 30]"
    by (subst scheduleLoop.simps, subst scheduleLoop.simps, subst scheduleLoop.simps)
       (simp add: n c monthsPerPeriod_def)
  then show ?thesis
    by (simp add: generateCouponSchedule_def thirtyBond_fields)
qed



section \<open>Day count: the year fraction is never negative\<close>

text \<open>
  C7. For every pair of dates and every day-count convention, \<open>yearFraction\<close> is
  non-negative, and it is exactly 0 whenever the end date is at or before the start date.
\<close>

theorem yearFraction_nonnegative:
  "0 \<le> yearFraction s e convention \<and> (date_le e s \<longrightarrow> yearFraction s e convention = 0)"
  using yearFraction_nonneg[of s e convention] yearFraction_zero[of e s convention] by blast

theorem yearFraction_nonnegative_witness:
  "date_le (utcDate 2024 1 31) (utcDate 2024 3 15)
   \<and> yearFraction (utcDate 2024 3 15) (utcDate 2024 1 31) THIRTY_360 = 0
   \<and> 0 \<le> yearFraction (utcDate 2024 3 15) (utcDate 2024 1 31) THIRTY_360"
proof -
  have h: "date_le (utcDate 2024 1 31) (utcDate 2024 3 15)"
    by (simp add: date_eval)
  show ?thesis
    using h yearFraction_nonnegative[of "utcDate 2024 3 15" "utcDate 2024 1 31" THIRTY_360]
    by blast
qed

section \<open>Current yield\<close>

text \<open>
  C10. For every bond with a positive face value and a positive buy price,
  \<open>getCurrentYield\<close> is the coupon rate divided by the buy price: the face value cancels.
\<close>

theorem getCurrentYield_face_cancels:
  assumes "0 < amount (faceValue b)" and "0 < buy (price b)"
  shows "getCurrentYield b = Some (couponRate b / buy (price b))"
  using assms by (simp add: getCurrentYield_def ratio_def multiply_def Let_def)

theorem getCurrentYield_face_cancels_witness:
  "0 < amount (faceValue scenarioA) \<and> 0 < buy (price scenarioA)
   \<and> getCurrentYield scenarioA = Some (3 / 50)"
proof -
  have f: "0 < amount (faceValue scenarioA)" and p: "0 < buy (price scenarioA)"
    by (simp_all add: scenarioA_def fromMajor_def)
  show ?thesis
    using f p getCurrentYield_face_cancels[OF f p] by (simp add: scenarioA_def)
qed

section \<open>Capital-gains tax\<close>

text \<open>
  C6. The capital-gains tax of a sale is zero whenever the effective sell ratio is at most
  the buy ratio, and otherwise, with tax enabled, it is
  \<open>(sellRatio - buyRatio) * faceValue * capitalGainsRate\<close>; \<^verbatim>\<open>BondTax.computeCapitalGains\<close>
  taxes \<open>max (sellAmount - costBasis) 0\<close> at the capital-gains rate when enabled.
\<close>

theorem capitalGainsTax_clamped:
  "(getSellPriceRatio b d = Some sellRatio \<and> sellRatio \<le> buy (price b) \<longrightarrow>
      computeCapitalGainsTax b d = Some (fromMinor 0 (currency (faceValue b))))
   \<and> (getSellPriceRatio b d = Some sellRatio \<and> buy (price b) < sellRatio \<and> enabled (tax b) \<longrightarrow>
      computeCapitalGainsTax b d =
        Some (fromMajor ((sellRatio - buy (price b)) * amount (faceValue b) * capitalGains (tax b))
               (currency (faceValue b))))
   \<and> computeCapitalGains settings sellPrice costBasis =
       fromMajor (if enabled settings
                  then max (amount sellPrice - amount costBasis) 0 * capitalGains settings else 0)
         (currency sellPrice)"
proof (intro conjI impI)
  assume "getSellPriceRatio b d = Some sellRatio \<and> sellRatio \<le> buy (price b)"
  then show "computeCapitalGainsTax b d = Some (fromMinor 0 (currency (faceValue b)))"
    by (simp add: computeCapitalGainsTax_def)
next
  assume "getSellPriceRatio b d = Some sellRatio \<and> buy (price b) < sellRatio \<and> enabled (tax b)"
  then show "computeCapitalGainsTax b d =
      Some (fromMajor ((sellRatio - buy (price b)) * amount (faceValue b) * capitalGains (tax b))
             (currency (faceValue b)))"
    by (simp add: computeCapitalGainsTax_def fromMinor_def fromMajor_def multiply_def
        algebra_simps)
next
  have p: "(0::real) < 10 ^ decimals (currency sellPrice)" by simp
  have "toMinor (subtract sellPrice costBasis) \<le> 0 \<longleftrightarrow> amount sellPrice - amount costBasis \<le> 0"
    unfolding toMinor_def subtract_def using p by (simp add: mult_le_0_iff not_le[symmetric])
  then show "computeCapitalGains settings sellPrice costBasis =
      fromMajor (if enabled settings
                 then max (amount sellPrice - amount costBasis) 0 * capitalGains settings else 0)
        (currency sellPrice)"
    by (simp add: computeCapitalGains_def fromMinor_def fromMajor_def multiply_def subtract_def
        Let_def max_def)
qed

theorem capitalGainsTax_clamped_witness:
  "getSellPriceRatio (taxedBond (Some (19 / 20))) (utcDate 2025 3 1) = Some (19 / 20)
   \<and> 19 / 20 \<le> buy (price (taxedBond (Some (19 / 20))))
   \<and> computeCapitalGainsTax (taxedBond (Some (19 / 20))) (utcDate 2025 3 1) = Some (fromMinor 0 PHP)
   \<and> getSellPriceRatio (taxedBond (Some (21 / 20))) (utcDate 2025 3 1) = Some (21 / 20)
   \<and> buy (price (taxedBond (Some (21 / 20)))) < 21 / 20
   \<and> enabled (tax (taxedBond (Some (21 / 20))))
   \<and> computeCapitalGainsTax (taxedBond (Some (21 / 20))) (utcDate 2025 3 1) = Some (fromMajor 750 PHP)"
proof -
  let ?lo = "taxedBond (Some (19 / 20))" and ?hi = "taxedBond (Some (21 / 20))"
  have a: "getSellPriceRatio ?lo (utcDate 2025 3 1) = Some (19 / 20) \<and> 19 / 20 \<le> buy (price ?lo)"
    by (simp add: getSellPriceRatio_def taxedBond_def)
  have b: "getSellPriceRatio ?hi (utcDate 2025 3 1) = Some (21 / 20) \<and> buy (price ?hi) < 21 / 20
      \<and> enabled (tax ?hi)"
    by (simp add: getSellPriceRatio_def taxedBond_def)
  have c: "currency (faceValue ?lo) = PHP" "currency (faceValue ?hi) = PHP"
    "(21 / 20 - buy (price ?hi)) * amount (faceValue ?hi) * capitalGains (tax ?hi) = 750"
    by (simp_all add: taxedBond_def scenarioA_def fromMajor_def noTax_def)
  show ?thesis
    using a b
      capitalGainsTax_clamped[of ?lo "utcDate 2025 3 1" "19 / 20" noTax "fromMajor 1 PHP"
        "fromMajor 1 PHP"]
      capitalGainsTax_clamped[of ?hi "utcDate 2025 3 1" "21 / 20" noTax "fromMajor 1 PHP"
        "fromMajor 1 PHP"]
    by (simp only: c)
qed

section \<open>Sale without an explicit sell price\<close>










section \<open>Setters and rejected input\<close>

lemma validating_setters_leave_rejected_bond:
  "fst (setFaceValue v c b) \<noteq> None \<Longrightarrow> snd (setFaceValue v c b) = b"
  "fst (setCouponRate x b) \<noteq> None \<Longrightarrow> snd (setCouponRate x b) = b"
  "fst (setBuyPrice x b) \<noteq> None \<Longrightarrow> snd (setBuyPrice x b) = b"
  "fst (setSellPrice x b) \<noteq> None \<Longrightarrow> snd (setSellPrice x b) = b"
  "fst (setMarketRate x b) \<noteq> None \<Longrightarrow> snd (setMarketRate x b) = b"
  "fst (setInterestFWT x b) \<noteq> None \<Longrightarrow> snd (setInterestFWT x b) = b"
  "fst (setCapitalGains x b) \<noteq> None \<Longrightarrow> snd (setCapitalGains x b) = b"
  "fst (setEstateOrDonor x b) \<noteq> None \<Longrightarrow> snd (setEstateOrDonor x b) = b"
  by (auto simp: setFaceValue_def setCouponRate_def setBuyPrice_def setSellPrice_def
      setMarketRate_def setInterestFWT_def setCapitalGains_def setEstateOrDonor_def
      split: if_splits)

lemma setIssueDate_rejected:
  assumes "date_le (end_date (maturity b)) d"
  shows "setIssueDate d b =
    (Some (Error ''Maturity date must be after issue date''),
     b\<lparr>maturity := (maturity b)\<lparr>start_date := d, issueDate := Some d\<rparr>\<rparr>)"
  using assms by (simp add: setIssueDate_def recomputeMaturityYears_def Let_def)

text \<open>
  C4. A setter that throws leaves every field of the bond unchanged. \<^verbatim>\<open>setMaturityDate\<close>
  does not: it assigns the end date and only then validates it, so a rejected date stays in
  the bond (\<^verbatim>\<open>setIssueDate\<close> does the same with the start date; the other eight setters
  validate first). Here the end date 2023-06-30 is rejected for a bond issued on 2024-01-15.
\<close>

theorem setMaturityDate_rejected_after_assignment:
  "setMaturityDate (utcDate 2023 6 30) scenarioA =
     (Some (Error ''Maturity date must be after issue date''),
      scenarioA\<lparr>maturity := (maturity scenarioA)\<lparr>end_date := utcDate 2023 6 30\<rparr>\<rparr>)
   \<and> end_date (maturity (snd (setMaturityDate (utcDate 2023 6 30) scenarioA)))
       \<noteq> end_date (maturity scenarioA)"
proof -
  have le: "date_le (utcDate 2023 6 30) (utcDate 2024 1 15)"
    by (simp add: date_eval)
  have ne: "utcDate 2023 6 30 \<noteq> utcDate 2029 1 15"
    by (simp add: utcDate_def)
  have r: "setMaturityDate (utcDate 2023 6 30) scenarioA =
     (Some (Error ''Maturity date must be after issue date''),
      scenarioA\<lparr>maturity := (maturity scenarioA)\<lparr>end_date := utcDate 2023 6 30\<rparr>\<rparr>)"
    using le by (simp add: setMaturityDate_def recomputeMaturityYears_def Let_def scenarioA_def)
  show ?thesis
    unfolding r using ne by (simp add: scenarioA_def)
qed

section \<open>The yield solver stops\<close>

text \<open>
  One Newton update from an estimate, when the derivative is not below the floor and the
  new value is finite; the estimate reached after \<open>k\<close> updates, if each of them exists; and
  the three ways the solver's loop ends at an estimate: the iteration cap, no further update,
  or a last update within the tolerance.
\<close>

definition newtonStep :: "real \<Rightarrow> real \<Rightarrow> real \<Rightarrow> real \<Rightarrow> real \<Rightarrow> real \<Rightarrow> real option" where
  "newtonStep freqDec faceMaj couponMaj priceDec periods ytmDec =
     (let (f, df) = newtonTerms freqDec faceMaj couponMaj priceDec periods ytmDec
      in if dec_abs_lt df (1 / 10 ^ 30) then None else dec_sub (Some ytmDec) (dec_div f df))"

fun estimateAfter :: "(real \<Rightarrow> real option) \<Rightarrow> nat \<Rightarrow> real \<Rightarrow> real option" where
  "estimateAfter step 0 y = Some y"
| "estimateAfter step (Suc k) y =
     (case step y of None \<Rightarrow> None | Some y' \<Rightarrow> estimateAfter step k y')"

definition stoppedAt ::
  "(real \<Rightarrow> real option) \<Rightarrow> real \<Rightarrow> nat \<Rightarrow> real \<Rightarrow> nat \<Rightarrow> real \<Rightarrow> bool" where
  "stoppedAt step tolerance cap y k r \<longleftrightarrow>
     k = cap \<or> step r = None
     \<or> (case k of
           0 \<Rightarrow> False
         | Suc j \<Rightarrow>
             (case estimateAfter step j y of
                None \<Rightarrow> False
              | Some prev \<Rightarrow> step prev = Some r \<and> \<bar>r - prev\<bar> < tolerance))"

lemma stoppedAt_update:
  assumes "step y = Some y'" and "stoppedAt step tol n y' k r"
  shows "stoppedAt step tol (Suc n) y (Suc k) r"
proof (cases k)
  case 0
  with assms show ?thesis by (auto simp: stoppedAt_def)
next
  case (Suc j)
  with assms show ?thesis by (auto simp: stoppedAt_def split: option.splits)
qed

lemma newtonLoop_estimate:
  "\<exists>k\<le>n. estimateAfter (newtonStep fr face c p periods) k y
            = Some (newtonLoop fr face c p periods tol n y)
        \<and> stoppedAt (newtonStep fr face c p periods) tol n y k
            (newtonLoop fr face c p periods tol n y)"
proof (induction n arbitrary: y)
  case 0
  show ?case by (simp add: stoppedAt_def)
next
  case (Suc n)
  let ?step = "newtonStep fr face c p periods"
  obtain f df where t: "newtonTerms fr face c p periods y = (f, df)"
    by (cases "newtonTerms fr face c p periods y")
  show ?case
  proof (cases "?step y")
    case None
    then have "newtonLoop fr face c p periods tol (Suc n) y = y"
      using t by (simp add: newtonStep_def split: if_splits)
    then show ?thesis
      using None by (intro exI[of _ 0]) (simp add: stoppedAt_def)
  next
    case (Some nx)
    then have nx: "\<not> dec_abs_lt df (1 / 10 ^ 30)" "dec_sub (Some y) (dec_div f df) = Some nx"
      using t by (simp_all add: newtonStep_def split: if_splits)
    show ?thesis
    proof (cases "\<bar>nx - y\<bar> < tol")
      case True
      then have r: "newtonLoop fr face c p periods tol (Suc n) y = nx"
        using t nx by simp
      show ?thesis
        unfolding r using Some True by (intro exI[of _ "Suc 0"]) (simp add: stoppedAt_def)
    next
      case False
      then have e: "newtonLoop fr face c p periods tol (Suc n) y
          = newtonLoop fr face c p periods tol n nx"
        using t nx by simp
      obtain k where k: "k \<le> n"
        "estimateAfter ?step k nx = Some (newtonLoop fr face c p periods tol n nx)"
        "stoppedAt ?step tol n nx k (newtonLoop fr face c p periods tol n nx)"
        using Suc.IH[of nx] by blast
      have "stoppedAt ?step tol (Suc n) y (Suc k) (newtonLoop fr face c p periods tol n nx)"
        using Some k(3) by (rule stoppedAt_update)
      then show ?thesis
        unfolding e using k(1,2) Some by (intro exI[of _ "Suc k"]) simp
    qed
  qed
qed

definition solverStep :: "MajikBond \<Rightarrow> real \<Rightarrow> real \<Rightarrow> real \<Rightarrow> real option" where
  "solverStep b priceRatio maturityYears =
     newtonStep (freq b) (toMajorDecimal (faceValue b))
       (toMajorDecimal (faceValue b) * couponRate b / freq b) priceRatio
       (maturityYears * freq b)"


text \<open>
  C8. \<open>solveYTMFromPrice\<close> returns 0 without iterating when \<open>maturityYears \<le> 0\<close>;
  otherwise it returns the estimate reached after some \<open>k \<le> iterations\<close> Newton updates
  from the initial guess, the one at which the loop stopped.
\<close>

theorem solveYTMFromPrice_bounded:
  "(maturityYears \<le> 0 \<longrightarrow> solveYTMFromPrice b priceRatio maturityYears iterations tolerance = 0)
   \<and> (0 < maturityYears \<longrightarrow>
        (\<exists>k\<le>iterations.
           estimateAfter (solverStep b priceRatio maturityYears) k (initialGuess b)
             = Some (solveYTMFromPrice b priceRatio maturityYears iterations tolerance)
           \<and> stoppedAt (solverStep b priceRatio maturityYears) tolerance iterations
               (initialGuess b) k
               (solveYTMFromPrice b priceRatio maturityYears iterations tolerance)))"
  using newtonLoop_estimate[of iterations "freq b" "toMajorDecimal (faceValue b)"
      "toMajorDecimal (faceValue b) * couponRate b / freq b" priceRatio
      "maturityYears * freq b" "initialGuess b" tolerance]
  by (simp add: solveYTMFromPrice_def solverStep_def Let_def)

theorem solveYTMFromPrice_bounded_witness:
  "solveYTMFromPrice scenarioA 1 0 100 (1 / 10 ^ 12) = 0
   \<and> (\<exists>k\<le>100. estimateAfter (solverStep scenarioA 1 5) k (initialGuess scenarioA)
         = Some (solveYTMFromPrice scenarioA 1 5 100 (1 / 10 ^ 12))
       \<and> stoppedAt (solverStep scenarioA 1 5) (1 / 10 ^ 12) 100 (initialGuess scenarioA) k
           (solveYTMFromPrice scenarioA 1 5 100 (1 / 10 ^ 12)))"
  using solveYTMFromPrice_bounded[of 0 scenarioA 1 100 "1 / 10 ^ 12"]
    solveYTMFromPrice_bounded[of 5 scenarioA 1 100 "1 / 10 ^ 12"]
  by auto

section \<open>The coupon schedule is increasing and ends at maturity\<close>

lemma getTime_inj:
  assumes a: "isValid a" and b: "isValid b" and eq: "getTime a = getTime b"
  shows "a = b"
proof -
  have ma: "1 \<le> month a" "month a \<le> 12" and mb: "1 \<le> month b" "month b \<le> 12"
    using a b by (simp_all add: isValid_def)
  have i: "12 * year a + month a = 12 * year b + month b"
    using getTime_mono[OF a b] getTime_mono[OF b a] eq by linarith
  have y: "year a = year b" using i ma mb by linarith
  with i have m: "month a = month b" by linarith
  have "\<not> makeDay (year a) (month a) (day a) < makeDay (year b) (month b) (day b)"
    "\<not> makeDay (year b) (month b) (day b) < makeDay (year a) (month a) (day a)"
    using getTime_day_lt[OF a b] getTime_day_lt[OF b a] eq by linarith+
  then have d: "day a = day b"
    by (simp add: makeDay_def y m)
  have "millis a = millis b"
    using eq by (simp add: getTime_def y m d)
  with y m d show ?thesis by simp
qed

lemma scheduleLoop_props:
  "(\<forall>x \<in> set (scheduleLoop f e c). date_lt c x \<and> date_le x e)
   \<and> sorted_wrt date_lt (scheduleLoop f e c)
   \<and> (date_lt c e \<longrightarrow> scheduleLoop f e c \<noteq> [] \<and> last (scheduleLoop f e c) = e)"
proof (induction f e c rule: scheduleLoop.induct)
  case (1 f e current)
  show ?case
  proof (cases "date_lt current e")
    case False
    then show ?thesis by (subst (1 2 3 4) scheduleLoop.simps) simp
  next
    case True
    define n where "n = nextCouponDate current (monthsPerPeriod f)"
    have vc: "isValid current" and ve: "isValid e" and ce: "getTime current < getTime e"
      using True by (simp_all add: date_lt_def)
    have vn: "isValid n"
      unfolding n_def by (rule nextCouponDate_valid[OF vc])
    have cn: "getTime current < getTime n"
      unfolding n_def by (rule nextCouponDate_later[OF vc monthsPerPeriod_pos])
    have unfold: "scheduleLoop f e current = (if date_lt e n then e else n) # scheduleLoop f e n"
      by (subst scheduleLoop.simps) (simp add: True n_def Let_def)
    note IH = "1.IH"[OF True refl, folded n_def]
    show ?thesis
    proof (cases "date_lt n e")
      case ne: True
      then have h: "\<not> date_lt e n" by (simp add: date_lt_def)
      from IH ne have tl: "\<forall>x \<in> set (scheduleLoop f e n). date_lt n x \<and> date_le x e"
        and st: "sorted_wrt date_lt (scheduleLoop f e n)"
        and lst: "scheduleLoop f e n \<noteq> []" "last (scheduleLoop f e n) = e"
        by blast+
      have "\<forall>x \<in> set (scheduleLoop f e n). date_lt current x"
        using tl vc cn by (auto simp: date_lt_def)
      moreover have "date_lt current n" "date_le n e"
        using vc vn ve cn ne by (simp_all add: date_lt_def date_le_def)
      ultimately show ?thesis
        unfolding unfold using h tl st lst by simp
    next
      case nn: False
      have tl: "scheduleLoop f e n = []"
        by (subst scheduleLoop.simps) (simp add: nn)
      show ?thesis
      proof (cases "date_lt e n")
        case True
        then show ?thesis
          unfolding unfold tl using vc ve ce by (simp add: date_lt_def date_le_def)
      next
        case False
        with nn vn ve have "getTime n = getTime e"
          by (simp add: date_lt_def)
        then have "n = e" by (rule getTime_inj[OF vn ve])
        then show ?thesis
          unfolding unfold tl using vc ve ce by (simp add: date_lt_def date_le_def)
      qed
    qed
  qed
qed

text \<open>
  One step of the schedule loop, and a bond of one month with an annual coupon: its
  schedule is the maturity date alone, while \<open>round (years * frequency)\<close> is 0.
\<close>

definition couponStep :: "CouponFrequency \<Rightarrow> date \<Rightarrow> date" where
  "couponStep f c = nextCouponDate c (monthsPerPeriod f)"

lemma scheduleLoop_steps:
  "(\<forall>j<length (scheduleLoop f e c). date_lt ((couponStep f ^^ j) c) e)
   \<and> \<not> date_lt ((couponStep f ^^ length (scheduleLoop f e c)) c) e"
proof (induction f e c rule: scheduleLoop.induct)
  case (1 f e current)
  show ?case
  proof (cases "date_lt current e")
    case False
    then show ?thesis by (subst (1 2) scheduleLoop.simps) simp
  next
    case True
    define n where "n = couponStep f current"
    have unfold: "length (scheduleLoop f e current) = Suc (length (scheduleLoop f e n))"
      by (subst scheduleLoop.simps) (simp add: True n_def couponStep_def Let_def)
    note IH = "1.IH"[OF True refl, folded couponStep_def, folded n_def]
    have shift: "\<And>j. (couponStep f ^^ Suc j) current = (couponStep f ^^ j) n"
      unfolding n_def by (simp add: funpow_swap1)
    have "date_lt ((couponStep f ^^ j) current) e" if "j < Suc (length (scheduleLoop f e n))" for j
    proof (cases j)
      case 0
      with True show ?thesis by simp
    next
      case (Suc i)
      with that IH show ?thesis unfolding Suc shift by simp
    qed
    moreover have "\<not> date_lt ((couponStep f ^^ Suc (length (scheduleLoop f e n))) current) e"
      unfolding shift using IH by simp
    ultimately show ?thesis
      unfolding unfold by blast
  qed
qed

definition oneMonthBond :: MajikBond where
  "oneMonthBond =
     scenarioA\<lparr>maturity := \<lparr>start_date = utcDate 2024 1 1, end_date = utcDate 2024 2 1,
                              years = 31 / 365, issueDate = None\<rparr>,
               frequency := Annual\<rparr>"

lemma oneMonthBond_fields:
  "start_date (maturity oneMonthBond) = utcDate 2024 1 1"
  "end_date (maturity oneMonthBond) = utcDate 2024 2 1"
  "years (maturity oneMonthBond) = 31 / 365" "frequency oneMonthBond = Annual"
  "dayCount oneMonthBond = ACTUAL_365" "freq oneMonthBond = 1"
  "faceValue oneMonthBond = fromMajor 100000 PHP" "couponRate oneMonthBond = 3 / 50"
  "tax oneMonthBond = noTax"
  by (simp_all add: oneMonthBond_def scenarioA_def freq_def)

lemma oneMonthBond_schedule: "generateCouponSchedule oneMonthBond = [utcDate 2024 2 1]"
proof -
  have a: "date_lt (utcDate 2024 1 1) (utcDate 2024 2 1)"
    by (simp add: date_eval)
  have n: "nextCouponDate (utcDate 2024 1 1) 12 = utcDate 2025 1 1"
    by (simp add: schedule_eval utcDate_def daysInMonth_def)
  have b: "date_lt (utcDate 2024 2 1) (utcDate 2025 1 1)"
    "\<not> date_lt (utcDate 2025 1 1) (utcDate 2024 2 1)"
    by (simp_all add: date_eval)
  have s: "scheduleLoop Annual (utcDate 2024 2 1) (utcDate 2024 1 1) = [utcDate 2024 2 1]"
    by (subst scheduleLoop.simps, subst scheduleLoop.simps)
       (simp add: a b n monthsPerPeriod_def)
  show ?thesis
    by (simp add: generateCouponSchedule_def oneMonthBond_fields s)
qed

lemma oneMonthBond_yearFraction:
  "yearFraction (utcDate 2024 1 1) (utcDate 2024 2 1) ACTUAL_365 = 31 / 365"
  by (simp add: yearFraction_def actual_def diffDays_def date_eval)

text \<open>
  C2 as stated fails: the length of the schedule is not \<open>round (years * frequency)\<close> in
  general. For the one-month annual bond the schedule has one date and the rounded number
  of periods is 0.
\<close>

theorem schedule_length_counterexample:
  "date_lt (start_date (maturity oneMonthBond)) (end_date (maturity oneMonthBond))
   \<and> generateCouponSchedule oneMonthBond = [utcDate 2024 2 1]
   \<and> mathRound (years (maturity oneMonthBond) * freq oneMonthBond) = 0
   \<and> totalPeriods oneMonthBond = 0
   \<and> length (generateCouponSchedule oneMonthBond)
       \<noteq> nat (mathRound (years (maturity oneMonthBond) * freq oneMonthBond))"
proof -
  have a: "date_lt (utcDate 2024 1 1) (utcDate 2024 2 1)"
    by (simp add: date_eval)
  have r: "mathRound (31 / 365) = 0"
    by (simp add: mathRound_def)
  show ?thesis
    by (simp add: oneMonthBond_fields oneMonthBond_schedule oneMonthBond_yearFraction a r
        totalPeriods_def)
qed

text \<open>
  C2, amended. For every bond whose maturity end is strictly after its start,
  \<open>generateCouponSchedule\<close> returns a non-empty, strictly increasing list of dates whose
  last element is the maturity end date; its length is the number of steps of
  \<open>12 / frequency\<close> months the running date needs to reach or pass the end date.
\<close>

theorem generateCouponSchedule_increasing:
  assumes "date_lt (start_date (maturity b)) (end_date (maturity b))"
  shows "generateCouponSchedule b \<noteq> []
    \<and> sorted_wrt date_lt (generateCouponSchedule b)
    \<and> last (generateCouponSchedule b) = end_date (maturity b)
    \<and> (\<forall>j<length (generateCouponSchedule b).
          date_lt ((couponStep (frequency b) ^^ j) (start_date (maturity b))) (end_date (maturity b)))
    \<and> \<not> date_lt ((couponStep (frequency b) ^^ length (generateCouponSchedule b))
                   (start_date (maturity b))) (end_date (maturity b))"
  unfolding generateCouponSchedule_def
  using assms
    scheduleLoop_props[of "frequency b" "end_date (maturity b)" "start_date (maturity b)"]
    scheduleLoop_steps[of "frequency b" "end_date (maturity b)" "start_date (maturity b)"]
  by blast

theorem generateCouponSchedule_increasing_witness:
  "date_lt (start_date (maturity oneMonthBond)) (end_date (maturity oneMonthBond))
   \<and> generateCouponSchedule oneMonthBond \<noteq> []
   \<and> sorted_wrt date_lt (generateCouponSchedule oneMonthBond)
   \<and> last (generateCouponSchedule oneMonthBond) = utcDate 2024 2 1
   \<and> date_lt (start_date (maturity thirtyBond)) (end_date (maturity thirtyBond))
   \<and> length (generateCouponSchedule thirtyBond) = 2
   \<and> sorted_wrt date_lt (generateCouponSchedule thirtyBond)
   \<and> last (generateCouponSchedule thirtyBond) = utcDate 2025 1 30"
proof -
  have a: "date_lt (start_date (maturity oneMonthBond)) (end_date (maturity oneMonthBond))"
    by (simp add: oneMonthBond_def scenarioA_def date_eval)
  have e: "end_date (maturity oneMonthBond) = utcDate 2024 2 1"
    by (simp add: oneMonthBond_def scenarioA_def)
  have b: "date_lt (start_date (maturity thirtyBond)) (end_date (maturity thirtyBond))"
    by (simp add: thirtyBond_fields date_eval)
  have l: "length (generateCouponSchedule thirtyBond) = 2"
    by (simp add: thirtyBond_schedule)
  show ?thesis
    using a generateCouponSchedule_increasing[OF a] b generateCouponSchedule_increasing[OF b] l
    unfolding e thirtyBond_fields by blast
qed

section \<open>Cashflow rows\<close>

lemma roundHalfEven_close: "\<bar>real_of_int (roundHalfEven x) - x\<bar> \<le> 1 / 2"
proof -
  have "real_of_int \<lfloor>x\<rfloor> \<le> x" "x < real_of_int \<lfloor>x\<rfloor> + 1"
    by linarith+
  then show ?thesis
    unfolding roundHalfEven_def Let_def by (auto split: if_splits)
qed

lemma roundHalfEven_of_int [simp]: "roundHalfEven (of_int n) = n"
  by (simp add: roundHalfEven_def)

lemma roundHalfEven_zero [simp]: "roundHalfEven 0 = 0"
  by (simp add: roundHalfEven_def)

lemma roundHalfEven_numeral [simp]: "roundHalfEven (numeral n) = numeral n"
  using roundHalfEven_of_int[of "numeral n"] by simp


lemma utcDate_fields [simp]:
  "year (utcDate y m d) = y" "month (utcDate y m d) = m" "day (utcDate y m d) = d"
  "millis (utcDate y m d) = 0"
  by (simp_all add: utcDate_def)

lemma cashflowRowsWith_length [simp]:
  "length (cashflowRowsWith yf b idx prev schedule) = length schedule"
  by (induction schedule arbitrary: idx prev) simp_all


















section \<open>Accrued interest at and between coupon dates\<close>

lemma roundHalfEven_nonneg: "0 \<le> x \<Longrightarrow> 0 \<le> roundHalfEven x"
  unfolding roundHalfEven_def Let_def by (auto split: if_splits)

lemma findLastCoupon_split:
  assumes "\<forall>x \<in> set xs. \<not> date_lt v x" and "\<not> date_lt v c"
    and "ys = [] \<or> date_lt v (hd ys)"
  shows "findLastCoupon v l (xs @ c # ys) = c"
  using assms(1)
proof (induction xs arbitrary: l)
  case Nil
  from assms(2,3) show ?case by (cases ys) auto
next
  case (Cons x xs)
  then show ?case by simp
qed

lemma findLastCoupon_sorted:
  assumes s: "sorted_wrt date_lt s" and i: "i < length s"
    and le: "date_le (s ! i) v"
    and nx: "Suc i < length s \<longrightarrow> date_lt v (s ! Suc i)"
  shows "findLastCoupon v l s = s ! i"
proof -
  have sp: "s = take i s @ s ! i # drop (Suc i) s"
    using i by (rule id_take_nth_drop)
  have a: "\<forall>x \<in> set (take i s). \<not> date_lt v x"
  proof
    fix x assume "x \<in> set (take i s)"
    then obtain j where j: "j < i" "x = s ! j"
      using i by (auto simp: in_set_conv_nth)
    have "date_lt (s ! j) (s ! i)"
      using s j(1) i by (simp add: sorted_wrt_iff_nth_less)
    with le show "\<not> date_lt v x"
      unfolding j(2) by (simp add: date_lt_def date_le_def)
  qed
  have b: "\<not> date_lt v (s ! i)"
    using le by (simp add: date_lt_def date_le_def)
  have c: "drop (Suc i) s = [] \<or> date_lt v (hd (drop (Suc i) s))"
  proof (cases "Suc i < length s")
    case True
    with nx show ?thesis by (simp add: hd_drop_conv_nth)
  next
    case False
    then show ?thesis by simp
  qed
  show ?thesis
    by (subst sp) (rule findLastCoupon_split[OF a b c])
qed

lemma schedule_sorted: "sorted_wrt date_lt (generateCouponSchedule b)"
  unfolding generateCouponSchedule_def using scheduleLoop_props by blast

lemma schedule_valid: "x \<in> set (generateCouponSchedule b) \<Longrightarrow> isValid x"
  unfolding generateCouponSchedule_def using scheduleLoop_props[of "frequency b"]
  by (auto simp: date_lt_def)

lemma fromMinor_zero: "fromMinor 0 c = fromMajor 0 c"
  by (simp add: fromMinor_def fromMajor_def)

lemma accruedInterestWith_after_first:
  assumes "generateCouponSchedule b \<noteq> []"
    and "\<not> date_le v (hd (generateCouponSchedule b))"
    and "findLastCoupon v (start_date (maturity b)) (generateCouponSchedule b) = c"
  shows "accruedInterestWith yf b v =
    (if yf c v \<le> 0 then fromMinor 0 (currency (faceValue b))
     else fromMajor
       (of_int (roundHalfEven
          (if enabled (tax b) \<and> interestFWT (tax b) \<noteq> 0
           then amount (faceValue b) * couponRate b * yf c v
             - amount (faceValue b) * couponRate b * yf c v * interestFWT (tax b)
           else amount (faceValue b) * couponRate b * yf c v)))
       (currency (faceValue b)))"
  using assms by (simp add: accruedInterestWith_def Let_def toMajorDecimal_def)

text \<open>
  A number \<open>yf\<close> is close to the exact year fraction when it differs from it by at most one
  part in \<open>10 ^ 15\<close>, as the double that \<^verbatim>\<open>DayCountCalculator.yearFraction\<close> returns does,
  being one or a few correctly rounded operations away from it. Such a number is 0 where
  the year fraction is, and never negative.
\<close>

lemma close_fraction:
  assumes "\<forall>s e. \<bar>yf s e - yearFraction s e c\<bar> \<le> yearFraction s e c / 10 ^ 15"
  shows "0 \<le> yf s e" and "yearFraction s e c = 0 \<Longrightarrow> yf s e = 0"
proof -
  let ?x = "yearFraction s e c"
  have x: "0 \<le> ?x" by (rule yearFraction_nonneg)
  have c: "\<bar>yf s e - ?x\<bar> \<le> ?x / 10 ^ 15"
    using assms by blast
  have "?x / 10 ^ 15 \<le> ?x"
    using x by (simp add: field_simps)
  with c show "0 \<le> yf s e" by linarith
  show "yf s e = 0" if "?x = 0"
    using c that by simp
qed

text \<open>
  C3, amended. For a number \<open>yf\<close> close to the exact year fraction, the accrued interest is
  zero when the date is at or before the first scheduled coupon date and at every scheduled
  coupon date. Strictly between two consecutive coupon dates, with tax disabled, it is
  never negative for a non-negative face value and rate, it is the product
  \<open>faceValue * couponRate * yf lastCoupon asOfDate\<close> up to rounding (by at most half a
  currency unit), it is zero when the year fraction since the last coupon is zero, and it
  is strictly positive once a whole currency unit has accrued. How fine the rounding is, is
  not part of this statement.
\<close>

theorem accruedInterest_boundaries:
  assumes close:
    "\<forall>s e. \<bar>yf s e - yearFraction s e (dayCount b)\<bar> \<le> yearFraction s e (dayCount b) / 10 ^ 15"
  shows "(generateCouponSchedule b = [] \<or> date_le v (hd (generateCouponSchedule b)) \<longrightarrow>
      accruedInterestWith yf b v = fromMinor 0 (currency (faceValue b)))
   \<and> (v \<in> set (generateCouponSchedule b) \<longrightarrow>
      accruedInterestWith yf b v = fromMinor 0 (currency (faceValue b)))
   \<and> (\<forall>i. Suc i < length (generateCouponSchedule b)
          \<and> date_lt (generateCouponSchedule b ! i) v
          \<and> date_lt v (generateCouponSchedule b ! Suc i)
          \<and> \<not> enabled (tax b) \<longrightarrow>
        (0 \<le> amount (faceValue b) * couponRate b \<longrightarrow>
           0 \<le> amount (accruedInterestWith yf b v))
        \<and> \<bar>amount (accruedInterestWith yf b v)
             - amount (faceValue b) * couponRate b * yf (generateCouponSchedule b ! i) v\<bar>
            \<le> 1 / 2
        \<and> (yearFraction (generateCouponSchedule b ! i) v (dayCount b) = 0 \<longrightarrow>
             accruedInterestWith yf b v = fromMinor 0 (currency (faceValue b)))
        \<and> (1 \<le> amount (faceValue b) * couponRate b * yf (generateCouponSchedule b ! i) v \<longrightarrow>
             0 < amount (accruedInterestWith yf b v)))"
proof (intro conjI impI allI)
  assume "generateCouponSchedule b = [] \<or> date_le v (hd (generateCouponSchedule b))"
  then show "accruedInterestWith yf b v = fromMinor 0 (currency (faceValue b))"
    by (auto simp: accruedInterestWith_def Let_def)
next
  let ?s = "generateCouponSchedule b"
  assume m: "v \<in> set ?s"
  then obtain i where i: "i < length ?s" "v = ?s ! i"
    by (auto simp: in_set_conv_nth)
  have vv: "isValid v" using m by (rule schedule_valid)
  have ne: "?s \<noteq> []" using m by auto
  show "accruedInterestWith yf b v = fromMinor 0 (currency (faceValue b))"
  proof (cases "date_le v (hd ?s)")
    case True
    then show ?thesis by (simp add: accruedInterestWith_def Let_def)
  next
    case False
    have le: "date_le (?s ! i) v"
      using vv i(2) by (simp add: date_le_def)
    have nx: "Suc i < length ?s \<longrightarrow> date_lt v (?s ! Suc i)"
      using schedule_sorted[of b] i(2) by (simp add: sorted_wrt_iff_nth_less)
    have f: "findLastCoupon v (start_date (maturity b)) ?s = v"
      using findLastCoupon_sorted[OF schedule_sorted i(1) le nx] i(2) by simp
    have "yearFraction v v (dayCount b) = 0"
      using vv by (simp add: yearFraction_zero date_le_def)
    then have "yf v v = 0"
      by (rule close_fraction(2)[OF close])
    then show ?thesis
      using accruedInterestWith_after_first[OF ne False f] by simp
  qed
next
  fix i
  let ?s = "generateCouponSchedule b"
  let ?q = "yf (?s ! i) v"
  let ?g = "amount (faceValue b) * couponRate b * ?q"
  let ?a = "accruedInterestWith yf b v"
  assume a: "Suc i < length ?s \<and> date_lt (?s ! i) v \<and> date_lt v (?s ! Suc i)
      \<and> \<not> enabled (tax b)"
  then have i: "i < length ?s" and ne: "?s \<noteq> []" by auto
  have le: "date_le (?s ! i) v"
    using a by (simp add: date_lt_def date_le_def)
  have "i = 0 \<or> date_lt (?s ! 0) (?s ! i)"
    using schedule_sorted[of b] i by (cases i) (simp_all add: sorted_wrt_iff_nth_less)
  then have "date_lt (?s ! 0) v"
    using a by (auto simp: date_lt_def)
  then have nf: "\<not> date_le v (hd ?s)"
    using ne by (simp add: hd_conv_nth date_lt_def date_le_def)
  have f: "findLastCoupon v (start_date (maturity b)) ?s = ?s ! i"
    using findLastCoupon_sorted[OF schedule_sorted i le] a by simp
  have q: "0 \<le> ?q"
    by (rule close_fraction(1)[OF close])
  have acc: "?a = fromMajor (of_int (roundHalfEven ?g)) (currency (faceValue b))"
  proof (cases "?q \<le> 0")
    case True
    with q have "?q = 0" by linarith
    then show ?thesis
      using accruedInterestWith_after_first[OF ne nf f] a by (simp add: fromMinor_zero)
  next
    case False
    then show ?thesis
      using accruedInterestWith_after_first[OF ne nf f] a by simp
  qed
  have am: "amount ?a = of_int (roundHalfEven ?g)"
    unfolding acc by (simp add: fromMajor_def)
  have c: "\<bar>real_of_int (roundHalfEven ?g) - ?g\<bar> \<le> 1 / 2"
    by (rule roundHalfEven_close)
  show "0 \<le> amount ?a" if "0 \<le> amount (faceValue b) * couponRate b"
  proof -
    have "0 \<le> ?g"
      using that q by (rule mult_nonneg_nonneg)
    then show ?thesis
      unfolding am by (simp add: roundHalfEven_nonneg)
  qed
  show "\<bar>amount ?a - ?g\<bar> \<le> 1 / 2"
    unfolding am by (rule c)
  show "?a = fromMinor 0 (currency (faceValue b))"
    if "yearFraction (?s ! i) v (dayCount b) = 0"
  proof -
    have "?q = 0"
      using that by (rule close_fraction(2)[OF close])
    then show ?thesis
      unfolding acc by (simp add: fromMinor_zero)
  qed
  show "0 < amount ?a" if "1 \<le> ?g"
    unfolding am using c that by linarith
qed

text \<open>
  C3 as stated fails: strictly between two coupon dates, with tax disabled and a positive
  coupon rate, the accrued interest can be zero. Under 30/360 with coupons on the 30th, no
  day has passed on the 31st of a coupon month.
\<close>

theorem accruedInterest_between_coupons_counterexample:
  "generateCouponSchedule thirtyBond = [utcDate 2024 7 30, utcDate 2025 1 30]
   \<and> date_lt (utcDate 2024 7 30) (utcDate 2024 7 31)
   \<and> date_lt (utcDate 2024 7 31) (utcDate 2025 1 30)
   \<and> \<not> enabled (tax thirtyBond) \<and> 0 < couponRate thirtyBond
   \<and> accruedInterest thirtyBond (utcDate 2024 7 31) = fromMinor 0 PHP
   \<and> \<not> 0 < amount (accruedInterest thirtyBond (utcDate 2024 7 31))"
proof -
  let ?v = "utcDate 2024 7 31"
  have c: "date_lt (utcDate 2024 7 30) ?v" "date_lt ?v (utcDate 2025 1 30)"
    "\<not> date_lt ?v (utcDate 2024 7 30)" "\<not> date_le ?v (utcDate 2024 7 30)"
    by (simp_all add: date_eval)
  have y: "yearFraction (utcDate 2024 7 30) ?v THIRTY_360 = 0"
    by (simp add: yearFraction_def thirtyUS360_def date_eval)
  have a: "accruedInterest thirtyBond ?v = fromMinor 0 PHP"
    by (simp add: accruedInterest_def accruedInterestWith_def exactFraction_def Let_def
        thirtyBond_schedule thirtyBond_fields c y fromMajor_def)
  show ?thesis
    using c(1,2) by (simp add: thirtyBond_schedule a thirtyBond_fields noTax_def fromMinor_def)
qed

theorem accruedInterest_boundaries_witness:
  "(\<forall>s e. \<bar>exactFraction thirtyBond s e - yearFraction s e (dayCount thirtyBond)\<bar>
        \<le> yearFraction s e (dayCount thirtyBond) / 10 ^ 15)
   \<and> date_le (utcDate 2024 3 1) (hd (generateCouponSchedule thirtyBond))
   \<and> accruedInterestWith (exactFraction thirtyBond) thirtyBond (utcDate 2024 3 1)
       = fromMinor 0 PHP
   \<and> utcDate 2025 1 30 \<in> set (generateCouponSchedule thirtyBond)
   \<and> accruedInterestWith (exactFraction thirtyBond) thirtyBond (utcDate 2025 1 30)
       = fromMinor 0 PHP
   \<and> Suc 0 < length (generateCouponSchedule thirtyBond)
   \<and> date_lt (generateCouponSchedule thirtyBond ! 0) (utcDate 2024 9 30)
   \<and> date_lt (utcDate 2024 9 30) (generateCouponSchedule thirtyBond ! Suc 0)
   \<and> \<not> enabled (tax thirtyBond)
   \<and> 0 \<le> amount (faceValue thirtyBond) * couponRate thirtyBond
   \<and> amount (faceValue thirtyBond) * couponRate thirtyBond
       * exactFraction thirtyBond (generateCouponSchedule thirtyBond ! 0) (utcDate 2024 9 30)
       = 1000
   \<and> \<bar>amount (accruedInterestWith (exactFraction thirtyBond) thirtyBond (utcDate 2024 9 30))
        - 1000\<bar> \<le> 1 / 2
   \<and> 0 < amount (accruedInterestWith (exactFraction thirtyBond) thirtyBond (utcDate 2024 9 30))"
proof -
  let ?yf = "exactFraction thirtyBond"
  have close: "\<forall>s e. \<bar>?yf s e - yearFraction s e (dayCount thirtyBond)\<bar>
      \<le> yearFraction s e (dayCount thirtyBond) / 10 ^ 15"
    by (simp add: exactFraction_def yearFraction_nonneg)
  have a: "date_le (utcDate 2024 3 1) (hd (generateCouponSchedule thirtyBond))"
    by (simp add: thirtyBond_schedule date_eval)
  have b: "utcDate 2025 1 30 \<in> set (generateCouponSchedule thirtyBond)"
    by (simp add: thirtyBond_schedule)
  have c: "Suc 0 < length (generateCouponSchedule thirtyBond)
      \<and> date_lt (generateCouponSchedule thirtyBond ! 0) (utcDate 2024 9 30)
      \<and> date_lt (utcDate 2024 9 30) (generateCouponSchedule thirtyBond ! Suc 0)
      \<and> \<not> enabled (tax thirtyBond)
      \<and> 0 \<le> amount (faceValue thirtyBond) * couponRate thirtyBond"
    by (simp add: thirtyBond_schedule thirtyBond_fields noTax_def date_eval fromMajor_def)
  have y: "yearFraction (utcDate 2024 7 30) (utcDate 2024 9 30) THIRTY_360 = 1 / 6"
    by (simp add: yearFraction_def thirtyUS360_def date_eval)
  have g: "amount (faceValue thirtyBond) * couponRate thirtyBond
      * ?yf (generateCouponSchedule thirtyBond ! 0) (utcDate 2024 9 30) = 1000"
    by (simp add: exactFraction_def thirtyBond_schedule thirtyBond_fields y fromMajor_def)
  have cur: "currency (faceValue thirtyBond) = PHP"
    by (simp add: thirtyBond_fields fromMajor_def)
  from accruedInterest_boundaries[OF close, of "utcDate 2024 3 1"] a
  have r1: "accruedInterestWith ?yf thirtyBond (utcDate 2024 3 1) = fromMinor 0 PHP"
    unfolding cur by blast
  from accruedInterest_boundaries[OF close, of "utcDate 2025 1 30"] b
  have r2: "accruedInterestWith ?yf thirtyBond (utcDate 2025 1 30) = fromMinor 0 PHP"
    unfolding cur by blast
  from accruedInterest_boundaries[OF close, of "utcDate 2024 9 30"] c
  have "\<bar>amount (accruedInterestWith ?yf thirtyBond (utcDate 2024 9 30))
        - amount (faceValue thirtyBond) * couponRate thirtyBond
          * ?yf (generateCouponSchedule thirtyBond ! 0) (utcDate 2024 9 30)\<bar> \<le> 1 / 2
      \<and> (1 \<le> amount (faceValue thirtyBond) * couponRate thirtyBond
          * ?yf (generateCouponSchedule thirtyBond ! 0) (utcDate 2024 9 30) \<longrightarrow>
         0 < amount (accruedInterestWith ?yf thirtyBond (utcDate 2024 9 30)))"
    by blast
  then have r3: "\<bar>amount (accruedInterestWith ?yf thirtyBond (utcDate 2024 9 30)) - 1000\<bar> \<le> 1 / 2
      \<and> 0 < amount (accruedInterestWith ?yf thirtyBond (utcDate 2024 9 30))"
    unfolding g by simp
  show ?thesis
    using close a b c g r1 r2 r3 by blast
qed

section \<open>Price and yield\<close>

















































end
